theory Spec2Isabelle
  imports Complex_Main
begin

section \<open>JavaScript values and the built-ins the parser uses\<close>

text \<open>
  The parser of \<^verbatim>\<open>src/src/extension.ts\<close> (class \<^verbatim>\<open>Cpt\<close>) works on JavaScript numbers
  and strings. A value that the code can hold in a numeric position is \<^verbatim>\<open>undefined\<close>
  (an array read out of range, a property that was never set), \<^verbatim>\<open>NaN\<close>, one of the two
  infinities, or a finite number. Finite numbers are modelled as exact reals: rounding to
  binary64 and the sign of zero are not modelled, every comparison and every branch of
  the code is.
\<close>

datatype jsval = Undefined | NaN | NegInf | PosInf | Fin real

text \<open>The global \<^verbatim>\<open>isNaN(v)\<close> converts its argument to a number first, so it is true of
  \<^verbatim>\<open>undefined\<close> as well.\<close>

fun isNaN :: "jsval \<Rightarrow> bool" where
  "isNaN Undefined = True"
| "isNaN NaN = True"
| "isNaN _ = False"

text \<open>\<^verbatim>\<open>Math.abs\<close>.\<close>

fun js_abs :: "jsval \<Rightarrow> jsval" where
  "js_abs (Fin r) = Fin \<bar>r\<bar>"
| "js_abs NegInf = PosInf"
| "js_abs PosInf = PosInf"
| "js_abs _ = NaN"

text \<open>The binary operators \<^verbatim>\<open>-\<close>, \<^verbatim>\<open>/\<close> and \<^verbatim>\<open>*\<close> on numbers; an \<^verbatim>\<open>undefined\<close>
  or \<^verbatim>\<open>NaN\<close> operand gives \<^verbatim>\<open>NaN\<close>.\<close>

fun js_sub :: "jsval \<Rightarrow> jsval \<Rightarrow> jsval" where
  "js_sub (Fin a) (Fin b) = Fin (a - b)"
| "js_sub (Fin a) PosInf = NegInf"
| "js_sub (Fin a) NegInf = PosInf"
| "js_sub PosInf (Fin b) = PosInf"
| "js_sub PosInf NegInf = PosInf"
| "js_sub NegInf (Fin b) = NegInf"
| "js_sub NegInf PosInf = NegInf"
| "js_sub _ _ = NaN"

fun js_div :: "jsval \<Rightarrow> jsval \<Rightarrow> jsval" where
  "js_div (Fin a) (Fin b) =
     (if b \<noteq> 0 then Fin (a / b)
      else if a = 0 then NaN else if 0 < a then PosInf else NegInf)"
| "js_div (Fin a) PosInf = Fin 0"
| "js_div (Fin a) NegInf = Fin 0"
| "js_div PosInf (Fin b) = (if b < 0 then NegInf else PosInf)"
| "js_div NegInf (Fin b) = (if b < 0 then PosInf else NegInf)"
| "js_div _ _ = NaN"

fun js_mul :: "jsval \<Rightarrow> jsval \<Rightarrow> jsval" where
  "js_mul (Fin a) (Fin b) = Fin (a * b)"
| "js_mul (Fin a) PosInf = (if a = 0 then NaN else if 0 < a then PosInf else NegInf)"
| "js_mul (Fin a) NegInf = (if a = 0 then NaN else if 0 < a then NegInf else PosInf)"
| "js_mul PosInf (Fin b) = (if b = 0 then NaN else if 0 < b then PosInf else NegInf)"
| "js_mul NegInf (Fin b) = (if b = 0 then NaN else if 0 < b then NegInf else PosInf)"
| "js_mul PosInf PosInf = PosInf"
| "js_mul NegInf NegInf = PosInf"
| "js_mul PosInf NegInf = NegInf"
| "js_mul NegInf PosInf = NegInf"
| "js_mul _ _ = NaN"

text \<open>The relational operators: every comparison with \<^verbatim>\<open>NaN\<close> or \<^verbatim>\<open>undefined\<close> is
  false.\<close>

fun js_lt :: "jsval \<Rightarrow> jsval \<Rightarrow> bool" where
  "js_lt (Fin a) (Fin b) = (a < b)"
| "js_lt (Fin a) PosInf = True"
| "js_lt NegInf (Fin b) = True"
| "js_lt NegInf PosInf = True"
| "js_lt _ _ = False"

definition js_gt :: "jsval \<Rightarrow> jsval \<Rightarrow> bool" where
  "js_gt a b = js_lt b a"

definition js_le :: "jsval \<Rightarrow> jsval \<Rightarrow> bool" where
  "js_le a b = (\<not> isNaN a \<and> \<not> isNaN b \<and> \<not> js_lt b a)"

text \<open>Strict equality \<^verbatim>\<open>===\<close>: \<^verbatim>\<open>NaN\<close> equals nothing, not even itself.\<close>

definition js_seq :: "jsval \<Rightarrow> jsval \<Rightarrow> bool" where
  "js_seq a b = (a = b \<and> a \<noteq> NaN)"

text \<open>\<^verbatim>\<open>a || b\<close>: the falsy values of a numeric position are \<^verbatim>\<open>undefined\<close>,
  \<^verbatim>\<open>NaN\<close> and zero.\<close>

fun truthy :: "jsval \<Rightarrow> bool" where
  "truthy Undefined = False"
| "truthy NaN = False"
| "truthy (Fin r) = (r \<noteq> 0)"
| "truthy _ = True"

definition js_or :: "jsval \<Rightarrow> jsval \<Rightarrow> jsval" where
  "js_or a b = (if truthy a then a else b)"

text \<open>Reading an array: \<^verbatim>\<open>xs[i]\<close> with a literal or loop index, and \<^verbatim>\<open>xs[v]\<close>
  with a computed value as the index. Outside the array, at a negative or fractional
  index, and at \<^verbatim>\<open>NaN\<close> or \<^verbatim>\<open>undefined\<close>, the read gives \<^verbatim>\<open>undefined\<close>; it never
  throws.\<close>

definition nth_opt :: "'a list \<Rightarrow> nat \<Rightarrow> 'a option" where
  "nth_opt xs i = (if i < length xs then Some (xs ! i) else None)"

definition arr_get :: "jsval list \<Rightarrow> nat \<Rightarrow> jsval" where
  "arr_get xs i = (case nth_opt xs i of Some v \<Rightarrow> v | None \<Rightarrow> Undefined)"

fun js_index :: "jsval list \<Rightarrow> jsval \<Rightarrow> jsval" where
  "js_index xs (Fin r) =
     (if 0 \<le> r \<and> r = of_int \<lfloor>r\<rfloor> then arr_get xs (nat \<lfloor>r\<rfloor>) else Undefined)"
| "js_index xs _ = Undefined"

text \<open>\<^verbatim>\<open>parseFloat(v.toFixed(2))\<close>: rounding to two decimals, ties away from zero.\<close>

fun round2 :: "jsval \<Rightarrow> jsval" where
  "round2 (Fin r) = Fin (sgn r * of_int \<lfloor>\<bar>r\<bar> * 100 + 1 / 2\<rfloor> / 100)"
| "round2 v = v"

subsection \<open>Strings\<close>

text \<open>
  Strings are lists of 8-bit characters. \<^verbatim>\<open>trim\<close> removes the white space and line
  terminators of that range: tab, line feed, vertical tab, form feed, carriage return,
  space and no-break space.
\<close>

definition isWhite :: "char \<Rightarrow> bool" where
  "isWhite c = (c \<in> set [CHR 0x09, CHR 0x0A, CHR 0x0B, CHR 0x0C, CHR 0x0D, CHR 0x20, CHR 0xA0])"

definition trimStart :: "string \<Rightarrow> string" where
  "trimStart s = dropWhile isWhite s"

definition trim :: "string \<Rightarrow> string" where
  "trim s = rev (dropWhile isWhite (rev (dropWhile isWhite s)))"

definition starts_with :: "string \<Rightarrow> string \<Rightarrow> bool" where
  "starts_with s p = (take (length p) s = p)"

text \<open>\<^verbatim>\<open>s.includes(sub)\<close>.\<close>

fun includes_str :: "string \<Rightarrow> string \<Rightarrow> bool" where
  "includes_str [] sub = (sub = [])"
| "includes_str (c # cs) sub = (starts_with (c # cs) sub \<or> includes_str cs sub)"

text \<open>\<^verbatim>\<open>s.replace(pat, rep)\<close> with a string pattern replaces the first occurrence
  only.\<close>

fun replace_first :: "string \<Rightarrow> string \<Rightarrow> string \<Rightarrow> string" where
  "replace_first [] pat rep = (if pat = [] then rep else [])"
| "replace_first (c # cs) pat rep =
     (if starts_with (c # cs) pat then rep @ drop (length pat) (c # cs)
      else c # replace_first cs pat rep)"

text \<open>\<^verbatim>\<open>s.split(sep)\<close> with a string separator: the pieces between the occurrences
  of the separator, found from left to right; with the empty separator, the characters
  of the string.\<close>

fun splitOn :: "char \<Rightarrow> string \<Rightarrow> string \<Rightarrow> string \<Rightarrow> string list" where
  "splitOn d ds acc [] = [rev acc]"
| "splitOn d ds acc (c # cs) =
     (if starts_with (c # cs) (d # ds) then rev acc # splitOn d ds [] (drop (length ds) cs)
      else splitOn d ds (c # acc) cs)"

fun split :: "string \<Rightarrow> string \<Rightarrow> string list" where
  "split s [] = map (\<lambda>c. [c]) s"
| "split s (d # ds) = splitOn d ds [] s"

text \<open>\<^verbatim>\<open>toUpperCase\<close> on the letters a to z. No other character has an upper-case
  form that contains one of the letters B, O, R, E, so the test for \<^verbatim>\<open>BORE\<close> in
  \<^verbatim>\<open>parseHeaderLine\<close> is the one of the code.\<close>

definition upperTable :: "(char \<times> char) list" where
  "upperTable = zip ''abcdefghijklmnopqrstuvwxyz'' ''ABCDEFGHIJKLMNOPQRSTUVWXYZ''"

definition toUpperCase :: "string \<Rightarrow> string" where
  "toUpperCase s = map (\<lambda>c. case map_of upperTable c of Some C \<Rightarrow> C | None \<Rightarrow> c) s"

text \<open>\<^verbatim>\<open>s.padStart(n, c)\<close> with a one-character filler.\<close>

definition padStart :: "nat \<Rightarrow> char \<Rightarrow> string \<Rightarrow> string" where
  "padStart n c s = replicate (n - length s) c @ s"

subsection \<open>Numbers from strings, strings from numbers\<close>

definition digitTable :: "(char \<times> nat) list" where
  "digitTable =
     [(CHR ''0'', 0), (CHR ''1'', 1), (CHR ''2'', 2), (CHR ''3'', 3), (CHR ''4'', 4),
      (CHR ''5'', 5), (CHR ''6'', 6), (CHR ''7'', 7), (CHR ''8'', 8), (CHR ''9'', 9),
      (CHR ''a'', 10), (CHR ''b'', 11), (CHR ''c'', 12), (CHR ''d'', 13), (CHR ''e'', 14),
      (CHR ''f'', 15), (CHR ''A'', 10), (CHR ''B'', 11), (CHR ''C'', 12), (CHR ''D'', 13),
      (CHR ''E'', 14), (CHR ''F'', 15)]"

definition digitOf :: "nat \<Rightarrow> char \<Rightarrow> nat option" where
  "digitOf radix c =
     (case map_of digitTable c of
        Some d \<Rightarrow> if d < radix then Some d else None
      | None \<Rightarrow> None)"

definition isDigit :: "nat \<Rightarrow> char \<Rightarrow> bool" where
  "isDigit radix c = (digitOf radix c \<noteq> None)"

definition numVal :: "nat \<Rightarrow> string \<Rightarrow> nat" where
  "numVal radix s =
     foldl (\<lambda>a c. a * radix + (case digitOf radix c of Some d \<Rightarrow> d | None \<Rightarrow> 0)) 0 s"

text \<open>An optional sign in front of a numeral: whether it is a minus, and the rest.\<close>

fun signOf :: "string \<Rightarrow> bool \<times> string" where
  "signOf [] = (False, [])"
| "signOf (c # cs) =
     (if c = CHR ''-'' then (True, cs) else if c = CHR ''+'' then (False, cs)
      else (False, c # cs))"

text \<open>\<^verbatim>\<open>parseInt(s)\<close> without a radix: leading white space, a sign, the prefix
  \<^verbatim>\<open>0x\<close> for base 16, then the longest run of digits; \<^verbatim>\<open>NaN\<close> when there is no
  digit.\<close>

definition parseInt :: "string \<Rightarrow> jsval" where
  "parseInt s =
     (let (neg, t) = signOf (trimStart s);
          hex = (starts_with t ''0x'' \<or> starts_with t ''0X'');
          radix = (if hex then 16 else 10);
          ds = takeWhile (isDigit radix) (if hex then drop 2 t else t)
      in if ds = [] then NaN
         else Fin ((if neg then - 1 else 1) * real (numVal radix ds)))"

text \<open>The exponent part of a decimal literal; an incomplete one (no digit after the
  \<^verbatim>\<open>e\<close>) is not part of the literal.\<close>

fun exponentOf :: "string \<Rightarrow> int" where
  "exponentOf [] = 0"
| "exponentOf (c # cs) =
     (if c = CHR ''e'' \<or> c = CHR ''E'' then
        (let (neg, t) = signOf cs; ds = takeWhile (isDigit 10) t
         in if ds = [] then 0
            else (if neg then - 1 else 1) * int (numVal 10 ds))
      else 0)"

text \<open>\<^verbatim>\<open>parseFloat(s)\<close>: leading white space, then the longest prefix that is a
  decimal literal (sign, \<^verbatim>\<open>Infinity\<close> or digits with an optional fraction and exponent);
  \<^verbatim>\<open>NaN\<close> when there is none. The value is the exact decimal value.\<close>

definition parseFloat :: "string \<Rightarrow> jsval" where
  "parseFloat s =
     (let (neg, t) = signOf (trimStart s)
      in if starts_with t ''Infinity'' then (if neg then NegInf else PosInf)
         else
           (let ip = takeWhile (isDigit 10) t;
                r1 = dropWhile (isDigit 10) t;
                dot = (r1 \<noteq> [] \<and> hd r1 = CHR ''.'');
                fp = (if dot then takeWhile (isDigit 10) (tl r1) else []);
                r2 = (if dot then dropWhile (isDigit 10) (tl r1) else r1);
                m = real (numVal 10 ip) + real (numVal 10 fp) / 10 ^ length fp;
                e = exponentOf r2;
                v = (if 0 \<le> e then m * 10 ^ nat e else m / 10 ^ nat (- e))
            in if ip = [] \<and> fp = [] then NaN
               else Fin (if neg then - v else v)))"

text \<open>The string of a number inside a template literal and under \<^verbatim>\<open>String(_)\<close>. The
  finite numbers that reach it are results of \<^verbatim>\<open>parseInt\<close>, so integers; their
  decimal digits are produced.\<close>

fun natToString :: "nat \<Rightarrow> string" where
  "natToString n =
     (if n < 10 then [''0123456789'' ! n]
      else natToString (n div 10) @ [''0123456789'' ! (n mod 10)])"

fun toString :: "jsval \<Rightarrow> string" where
  "toString Undefined = ''undefined''"
| "toString NaN = ''NaN''"
| "toString PosInf = ''Infinity''"
| "toString NegInf = ''-Infinity''"
| "toString (Fin r) =
     (if r < 0 then CHR ''-'' # natToString (nat \<lfloor>- r\<rfloor>) else natToString (nat \<lfloor>r\<rfloor>))"

section \<open>The parser state and its errors\<close>

text \<open>
  \<^verbatim>\<open>readGef\<close> builds the object \<^verbatim>\<open>metadata\<close> while it reads the header. The two
  objects \<^verbatim>\<open>columnVoids\<close> and \<^verbatim>\<open>columnInfo\<close> are keyed by numbers: \<^verbatim>\<open>columnInfo\<close>
  is only read at fixed keys, so it is a function that gives \<^verbatim>\<open>undefined\<close> at a key
  never set; \<^verbatim>\<open>columnVoids\<close> is enumerated with \<^verbatim>\<open>Object.entries\<close>, so it is a list
  of entries with distinct keys. The key of an entry is kept as the number it was
  made from: a key is the string of an integer or of \<^verbatim>\<open>NaN\<close>, and \<^verbatim>\<open>parseInt\<close> of that
  string gives the number back (for an integer below \<open>10\<^sup>2\<^sup>1\<close> in magnitude, whose string
  is its decimal digits).
\<close>

record metadata =
  recordSeparator :: string
  columnSeparator :: string
  columnVoids :: "(jsval \<times> jsval) list"
  columnInfo :: "jsval \<Rightarrow> jsval"

text \<open>The fields of class \<^verbatim>\<open>Cpt\<close>.\<close>

record cpt =
  cpt_x :: jsval
  cpt_y :: jsval
  cpt_top :: jsval
  cpt_bottom :: jsval
  cpt_z :: "jsval list"
  cpt_qc :: "jsval list"
  cpt_fs :: "jsval list"
  cpt_u :: "jsval list"
  cpt_fr :: "jsval list"
  cpt_name :: string
  cpt_filedate :: string
  cpt_startdate :: string
  cpt_filename :: string
  cpt_preExcavatedDepth :: jsval

text \<open>
  What the code throws: the run-time \<^verbatim>\<open>TypeError\<close> of a method call on
  \<^verbatim>\<open>undefined\<close>, the \<^verbatim>\<open>CptReadError\<close> of a borehole file, the error of an invalid
  date, and the two wrappers \<^verbatim>\<open>Error reading header line\<close> and
  \<^verbatim>\<open>Error reading data line\<close>, which carry the line and the cause.
\<close>

datatype error =
    TypeError
  | BoreholeFile
  | InvalidDate
  | HeaderLineError string error
  | DataLineError string error

fun andThen :: "error + 'a \<Rightarrow> ('a \<Rightarrow> error + 'b) \<Rightarrow> error + 'b" where
  "andThen (Inl e) f = Inl e"
| "andThen (Inr a) f = f a"

text \<open>\<^verbatim>\<open>params[i].trim()\<close>: a \<^verbatim>\<open>TypeError\<close> when the list has no element \<open>i\<close>.\<close>

definition trimAt :: "string list \<Rightarrow> nat \<Rightarrow> error + string" where
  "trimAt ps i = (case nth_opt ps i of None \<Rightarrow> Inl TypeError | Some p \<Rightarrow> Inr (trim p))"

text \<open>\<^verbatim>\<open>obj[k] = v\<close> on an object kept as a list of entries.\<close>

fun assign :: "'k \<Rightarrow> 'v \<Rightarrow> ('k \<times> 'v) list \<Rightarrow> ('k \<times> 'v) list" where
  "assign k v [] = [(k, v)]"
| "assign k v (e # es) = (if fst e = k then (k, v) # es else e # assign k v es)"

definition CPT_FR_MAX :: jsval where
  "CPT_FR_MAX = Fin 10"

definition GEF_COLUMN_Z :: jsval where "GEF_COLUMN_Z = Fin 1"
definition GEF_COLUMN_QC :: jsval where "GEF_COLUMN_QC = Fin 2"
definition GEF_COLUMN_FS :: jsval where "GEF_COLUMN_FS = Fin 3"
definition GEF_COLUMN_U :: jsval where "GEF_COLUMN_U = Fin 6"
definition GEF_COLUMN_Z_CORRECTED :: jsval where "GEF_COLUMN_Z_CORRECTED = Fin 11"

section \<open>The header\<close>

text \<open>\<^verbatim>\<open>parseDate\<close>: the body of its \<^verbatim>\<open>try\<close>, then the \<^verbatim>\<open>catch\<close> that turns every
  error into the empty string.\<close>

definition parseDateBody :: "string list \<Rightarrow> error + string" where
  "parseDateBody params =
     andThen (trimAt params 0) (\<lambda>p0.
     andThen (trimAt params 1) (\<lambda>p1.
     andThen (trimAt params 2) (\<lambda>p2.
       (let yyyy = parseInt p0; mm = parseInt p1; dd = parseInt p2
        in if js_lt yyyy (Fin 1900) \<or> js_gt yyyy (Fin 2100) \<or> js_lt mm (Fin 1)
              \<or> js_gt mm (Fin 12) \<or> js_lt dd (Fin 1) \<or> js_gt dd (Fin 31)
           then Inl InvalidDate
           else Inr (toString yyyy @ padStart 2 (CHR ''0'') (toString mm)
                       @ padStart 2 (CHR ''0'') (toString dd))))))"

definition parseDate :: "string list \<Rightarrow> string" where
  "parseDate params = (case parseDateBody params of Inl e \<Rightarrow> [] | Inr s \<Rightarrow> s)"

text \<open>
  \<^verbatim>\<open>parseHeaderLine\<close>. The \<^verbatim>\<open>switch\<close> on the keyword is \<open>headerCase\<close>; \<open>params\<close> is a
  result of \<^verbatim>\<open>split\<close> with a comma, so it has a first element. \<open>headerBody\<close> is the
  body of the \<^verbatim>\<open>try\<close>, and \<open>parseHeaderLine\<close> adds the \<^verbatim>\<open>catch\<close>, which wraps every
  error, the borehole error too.
\<close>

definition headerCase ::
  "string \<Rightarrow> string list \<Rightarrow> metadata \<times> cpt \<Rightarrow> error + metadata \<times> cpt" where
  "headerCase keyword params st =
     (let md = fst st; c = snd st in
      if keyword = ''PROCEDURECODE'' \<or> keyword = ''REPORTCODE'' then
        (if includes_str (toUpperCase (hd params)) ''BORE'' then Inl BoreholeFile
         else Inr st)
      else if keyword = ''RECORDSEPARATOR'' then
        Inr (md\<lparr>recordSeparator := hd params\<rparr>, c)
      else if keyword = ''COLUMNSEPARATOR'' then
        Inr (md\<lparr>columnSeparator := hd params\<rparr>, c)
      else if keyword = ''COLUMNINFO'' then
        (let column = parseInt (hd params) in
         andThen (trimAt params 3) (\<lambda>p3.
           (let dtype = parseInt p3;
                dtype = (if js_seq dtype GEF_COLUMN_Z_CORRECTED then GEF_COLUMN_Z else dtype)
            in Inr (md\<lparr>columnInfo := (columnInfo md)(dtype := js_sub column (Fin 1))\<rparr>, c))))
      else if keyword = ''XYID'' then
        andThen (trimAt params 1) (\<lambda>p1.
        andThen (trimAt params 2) (\<lambda>p2.
          Inr (md, c\<lparr>cpt_x := round2 (parseFloat p1), cpt_y := round2 (parseFloat p2)\<rparr>)))
      else if keyword = ''ZID'' then
        andThen (trimAt params 1) (\<lambda>p1. Inr (md, c\<lparr>cpt_top := parseFloat p1\<rparr>))
      else if keyword = ''MEASUREMENTVAR'' then
        (if hd params = ''13'' then
           andThen (trimAt params 1) (\<lambda>p1.
             Inr (md, c\<lparr>cpt_preExcavatedDepth := parseFloat p1\<rparr>))
         else Inr st)
      else if keyword = ''COLUMNVOID'' then
        andThen (trimAt params 0) (\<lambda>p0.
        andThen (trimAt params 1) (\<lambda>p1.
          Inr (md\<lparr>columnVoids :=
                   assign (js_sub (parseInt p0) (Fin 1)) (parseFloat p1) (columnVoids md)\<rparr>,
               c)))
      else if keyword = ''TESTID'' then
        Inr (md, c\<lparr>cpt_name := trim (hd params)\<rparr>)
      else if keyword = ''FILEDATE'' then
        Inr (md, c\<lparr>cpt_filedate := parseDate params\<rparr>)
      else if keyword = ''STARTDATE'' then
        Inr (md, c\<lparr>cpt_startdate := parseDate params\<rparr>)
      else Inr st)"

definition headerBody :: "string \<Rightarrow> metadata \<times> cpt \<Rightarrow> error + metadata \<times> cpt" where
  "headerBody line st =
     (let args = split line ''='' in
      andThen (trimAt args 0) (\<lambda>a0.
        (let keyword = replace_first a0 ''#'' [] in
         andThen (trimAt args 1) (\<lambda>argline.
           headerCase keyword (split argline '','') st))))"

definition parseHeaderLine :: "string \<Rightarrow> metadata \<times> cpt \<Rightarrow> error + metadata \<times> cpt" where
  "parseHeaderLine line st =
     (case headerBody line st of
        Inl e \<Rightarrow> Inl (HeaderLineError line e)
      | Inr st' \<Rightarrow> Inr st')"

section \<open>The data rows\<close>

text \<open>
  \<^verbatim>\<open>parseDataLine\<close>. \<open>tokens\<close> is the array \<^verbatim>\<open>args\<close> of the row; \<open>voidMatch\<close> is the
  loop over \<^verbatim>\<open>Object.entries(metadata.columnVoids)\<close>, which leaves the function at the
  first match. No statement of the \<^verbatim>\<open>try\<close> block can throw: \<^verbatim>\<open>parseFloat\<close> of a
  token that is no number is \<^verbatim>\<open>NaN\<close>, an array read at any index is a value or
  \<^verbatim>\<open>undefined\<close>, and arithmetic and comparisons accept both. So the \<^verbatim>\<open>catch\<close> that
  would wrap an error into \<open>DataLineError\<close> has nothing to catch.
\<close>

definition tokens :: "metadata \<Rightarrow> string \<Rightarrow> jsval list" where
  "tokens md line =
     map (\<lambda>arg. parseFloat (trim arg))
       (filter (\<lambda>arg. length (trim arg) > 0)
          (split (trim (replace_first line (recordSeparator md) [])) (columnSeparator md)))"

definition voidMatch :: "metadata \<Rightarrow> jsval list \<Rightarrow> bool" where
  "voidMatch md args =
     list_ex (\<lambda>e. js_seq (js_index args (fst e)) (snd e)) (columnVoids md)"

definition clampQc :: "jsval \<Rightarrow> jsval" where
  "clampQc qc = (if js_le qc (Fin 0) then Fin (1 / 1000) else qc)"

definition clampFs :: "jsval \<Rightarrow> jsval" where
  "clampFs fs = (if js_le fs (Fin 0) then Fin (1 / 1000000) else fs)"

definition pushRow :: "metadata \<Rightarrow> jsval list \<Rightarrow> cpt \<Rightarrow> cpt" where
  "pushRow md args c =
     (let zColumn = columnInfo md GEF_COLUMN_Z;
          qcColumn = columnInfo md GEF_COLUMN_QC;
          fsColumn = columnInfo md GEF_COLUMN_FS;
          uColumn = js_or (columnInfo md GEF_COLUMN_U) (Fin (- 1));
          dz = js_sub (cpt_top c) (js_abs (js_index args zColumn))
      in c\<lparr>cpt_z := cpt_z c @ [dz],
           cpt_qc := cpt_qc c @ [clampQc (js_index args qcColumn)],
           cpt_fs := cpt_fs c @ [clampFs (js_index args fsColumn)],
           cpt_u := cpt_u c @ [if js_gt uColumn (Fin (- 1)) then js_index args uColumn
                               else Fin 0]\<rparr>)"

definition dataBody :: "string \<Rightarrow> metadata \<Rightarrow> cpt \<Rightarrow> error + cpt" where
  "dataBody line md c =
     (if length (trim line) = 0 then Inr c
      else (let args = tokens md line
            in if voidMatch md args then Inr c else Inr (pushRow md args c)))"

definition parseDataLine :: "string \<Rightarrow> metadata \<Rightarrow> cpt \<Rightarrow> error + cpt" where
  "parseDataLine line md c =
     (case dataBody line md c of
        Inl e \<Rightarrow> Inl (DataLineError line e)
      | Inr c' \<Rightarrow> Inr c')"

section \<open>Post-processing\<close>

text \<open>The first loop of \<^verbatim>\<open>postProcess\<close>: one friction ratio for each index of
  \<^verbatim>\<open>this.qc\<close>.\<close>

definition frictionRatio :: "jsval \<Rightarrow> jsval \<Rightarrow> jsval" where
  "frictionRatio qc fs =
     (if js_seq qc (Fin 0) then CPT_FR_MAX else js_mul (js_div fs qc) (Fin 100))"

function frLoop :: "nat \<Rightarrow> jsval list \<Rightarrow> jsval list \<Rightarrow> jsval list \<Rightarrow> jsval list" where
  "frLoop i qcs fss fr =
     (if i < length qcs
      then frLoop (i + 1) qcs fss (fr @ [frictionRatio (arr_get qcs i) (arr_get fss i)])
      else fr)"
  by pat_completeness auto
termination
  by (relation "measure (\<lambda>(i, qcs, fss, fr). length qcs - i)") auto

text \<open>The second loop: the rows whose depth is no number are left out, and in the rows
  that stay a value that is no number becomes zero.\<close>

type_synonym columns = "jsval list \<times> jsval list \<times> jsval list \<times> jsval list \<times> jsval list"

definition nanToZero :: "jsval \<Rightarrow> jsval" where
  "nanToZero v = (if isNaN v then Fin 0 else v)"

function filterLoop :: "nat \<Rightarrow> cpt \<Rightarrow> columns \<Rightarrow> columns" where
  "filterLoop i c acc =
     (if i < length (cpt_z c) then
        (case acc of (zs, qcs, fss, frs, u2s) \<Rightarrow>
           if isNaN (arr_get (cpt_z c) i) then filterLoop (i + 1) c acc
           else filterLoop (i + 1) c
                  (zs @ [arr_get (cpt_z c) i],
                   qcs @ [nanToZero (arr_get (cpt_qc c) i)],
                   fss @ [nanToZero (arr_get (cpt_fs c) i)],
                   frs @ [nanToZero (arr_get (cpt_fr c) i)],
                   u2s @ [nanToZero (arr_get (cpt_u c) i)]))
      else acc)"
  by pat_completeness auto
termination
  by (relation "measure (\<lambda>(i, c, acc). length (cpt_z c) - i)") auto

text \<open>The read \<^verbatim>\<open>this.z[this.z.length - 1]\<close> of an empty array gives \<^verbatim>\<open>undefined\<close>, and
  the call of \<^verbatim>\<open>toFixed\<close> on it throws.\<close>

definition postProcess :: "cpt \<Rightarrow> error + cpt" where
  "postProcess c =
     (let c1 = c\<lparr>cpt_fr := frLoop 0 (cpt_qc c) (cpt_fs c) []\<rparr> in
      case filterLoop 0 c1 ([], [], [], [], []) of (zs, qcs, fss, frs, u2s) \<Rightarrow>
        (let c2 = c1\<lparr>cpt_z := zs, cpt_qc := qcs, cpt_fs := fss, cpt_fr := frs, cpt_u := u2s,
                     cpt_top := round2 (cpt_top c1)\<rparr>
         in if zs = [] then Inl TypeError
            else Inr (c2\<lparr>cpt_bottom := round2 (last zs)\<rparr>)))"

section \<open>Reading a file\<close>

text \<open>The loop of \<^verbatim>\<open>readGef\<close> over the lines, with the flag \<^verbatim>\<open>readingHeader\<close>; an
  error of a line ends it.\<close>

fun readLines :: "bool \<Rightarrow> string list \<Rightarrow> metadata \<times> cpt \<Rightarrow> error + metadata \<times> cpt" where
  "readLines readingHeader [] st = Inr st"
| "readLines readingHeader (line # lines) st =
     (if readingHeader then
        (if includes_str line ''#EOH'' then readLines False lines st
         else andThen (parseHeaderLine line st) (readLines True lines))
      else andThen (parseDataLine line (fst st) (snd st))
             (\<lambda>c'. readLines False lines (fst st, c')))"

definition newMetadata :: metadata where
  "newMetadata =
     \<lparr>recordSeparator = [], columnSeparator = '' '', columnVoids = [],
      columnInfo = (\<lambda>k. Undefined)\<rparr>"

definition newCpt :: cpt where
  "newCpt =
     \<lparr>cpt_x = Fin 0, cpt_y = Fin 0, cpt_top = Fin 0, cpt_bottom = Fin 0,
      cpt_z = [], cpt_qc = [], cpt_fs = [], cpt_u = [], cpt_fr = [],
      cpt_name = [], cpt_filedate = [], cpt_startdate = [], cpt_filename = [],
      cpt_preExcavatedDepth = Fin 0\<rparr>"

definition readGefFrom :: "cpt \<Rightarrow> string \<Rightarrow> error + cpt" where
  "readGefFrom c data =
     andThen (readLines True (split data [CHR 0x0A]) (newMetadata, c))
       (\<lambda>st. postProcess (snd st))"

text \<open>\<^verbatim>\<open>fromString\<close> calls \<^verbatim>\<open>readGef\<close> on a new object.\<close>

definition readGef :: "string \<Rightarrow> error + cpt" where
  "readGef data = readGefFrom newCpt data"

section \<open>Notions for stating the properties\<close>

text \<open>
  The lines before the first line that contains the marker are the header, the lines
  after it are the data section. A data row is a line of the data section that is not
  blank. For a row, \<open>rowZ\<close>, \<open>rowQc\<close>, \<open>rowFs\<close> and \<open>rowU\<close> are the four values that
  \<^verbatim>\<open>parseDataLine\<close> pushes; a row is ingested when no void sentinel matches it, and it
  survives when its depth is a number.
\<close>

definition rowZ :: "metadata \<Rightarrow> jsval \<Rightarrow> string \<Rightarrow> jsval" where
  "rowZ md tp line = js_sub tp (js_abs (js_index (tokens md line) (columnInfo md GEF_COLUMN_Z)))"

definition rowQc :: "metadata \<Rightarrow> string \<Rightarrow> jsval" where
  "rowQc md line = clampQc (js_index (tokens md line) (columnInfo md GEF_COLUMN_QC))"

definition rowFs :: "metadata \<Rightarrow> string \<Rightarrow> jsval" where
  "rowFs md line = clampFs (js_index (tokens md line) (columnInfo md GEF_COLUMN_FS))"

definition rowU :: "metadata \<Rightarrow> string \<Rightarrow> jsval" where
  "rowU md line =
     (let uColumn = js_or (columnInfo md GEF_COLUMN_U) (Fin (- 1))
      in if js_gt uColumn (Fin (- 1)) then js_index (tokens md line) uColumn else Fin 0)"

definition dataRows :: "string list \<Rightarrow> string list" where
  "dataRows lines = filter (\<lambda>l. length (trim l) \<noteq> 0) lines"

definition voidRow :: "metadata \<Rightarrow> string \<Rightarrow> bool" where
  "voidRow md line = voidMatch md (tokens md line)"

definition ingested :: "metadata \<Rightarrow> string list \<Rightarrow> string list" where
  "ingested md lines = filter (\<lambda>l. \<not> voidRow md l) (dataRows lines)"

definition surviving :: "metadata \<Rightarrow> jsval \<Rightarrow> string list \<Rightarrow> string list" where
  "surviving md tp lines = filter (\<lambda>l. \<not> isNaN (rowZ md tp l)) (ingested md lines)"

definition isEOH :: "string \<Rightarrow> bool" where
  "isEOH line = includes_str line ''#EOH''"

definition headerOf :: "string list \<Rightarrow> string list" where
  "headerOf lines = takeWhile (\<lambda>l. \<not> isEOH l) lines"

definition dataOf :: "string list \<Rightarrow> string list" where
  "dataOf lines = drop 1 (dropWhile (\<lambda>l. \<not> isEOH l) lines)"

text \<open>The data rows that a void sentinel drops, and the ingested rows that the filter of
  \<^verbatim>\<open>postProcess\<close> drops for a depth that is no number.\<close>

definition voidRows :: "metadata \<Rightarrow> string list \<Rightarrow> string list" where
  "voidRows md lines = filter (voidRow md) (dataRows lines)"

definition nanRows :: "metadata \<Rightarrow> jsval \<Rightarrow> string list \<Rightarrow> string list" where
  "nanRows md tp lines = filter (\<lambda>l. isNaN (rowZ md tp l)) (ingested md lines)"

text \<open>The indices from \<open>i\<close> on at which the depth is a number.\<close>

definition keptIdx :: "jsval list \<Rightarrow> nat \<Rightarrow> nat list" where
  "keptIdx zs i = filter (\<lambda>j. \<not> isNaN (arr_get zs j)) [i..<length zs]"

text \<open>The keyword and the parameters of a header line, as \<^verbatim>\<open>parseHeaderLine\<close> finds
  them; there are none when the line has no \<^verbatim>\<open>=\<close>.\<close>

definition headerFields :: "string \<Rightarrow> (string \<times> string list) option" where
  "headerFields line =
     (let args = split line ''='' in
      case nth_opt args 0 of
        None \<Rightarrow> None
      | Some a0 \<Rightarrow>
          (case nth_opt args 1 of
             None \<Rightarrow> None
           | Some a1 \<Rightarrow> Some (replace_first (trim a0) ''#'' [], split (trim a1) '','')))"

section \<open>Evaluation and the loops\<close>

text \<open>The two index loops unfold under their own equation only on demand, and so does
  \<open>split\<close>; \<open>js_eval\<close> collects what a run on a given text unfolds.\<close>

declare frLoop.simps [simp del] filterLoop.simps [simp del] split.simps [simp del]

lemmas js_eval =
  parseFloat_def parseInt_def trimStart_def trim_def isWhite_def starts_with_def isDigit_def
  digitOf_def digitTable_def numVal_def split.simps Let_def tokens_def voidMatch_def
  clampQc_def clampFs_def pushRow_def dataBody_def parseDataLine_def headerBody_def
  headerCase_def parseHeaderLine_def trimAt_def nth_opt_def arr_get_def js_le_def js_gt_def
  js_seq_def js_or_def GEF_COLUMN_Z_def GEF_COLUMN_QC_def GEF_COLUMN_FS_def GEF_COLUMN_U_def
  GEF_COLUMN_Z_CORRECTED_def CPT_FR_MAX_def toUpperCase_def upperTable_def padStart_def
  parseDateBody_def parseDate_def frictionRatio_def nanToZero_def postProcess_def
  readGef_def readGefFrom_def newCpt_def newMetadata_def frLoop.simps filterLoop.simps
  headerFields_def isEOH_def headerOf_def dataOf_def

lemma frLoop_eq:
  "frLoop i qcs fss fr =
     fr @ map (\<lambda>j. frictionRatio (arr_get qcs j) (arr_get fss j)) [i..<length qcs]"
proof (induction i qcs fss fr rule: frLoop.induct)
  case (1 i qcs fss fr)
  show ?case
  proof (cases "i < length qcs")
    case True
    with 1 show ?thesis
      by (subst frLoop.simps) (simp add: upt_conv_Cons)
  next
    case False
    then show ?thesis
      by (subst frLoop.simps) simp
  qed
qed

lemma keptIdx_step:
  "i < length zs \<Longrightarrow>
     keptIdx zs i = (if isNaN (arr_get zs i) then keptIdx zs (Suc i) else i # keptIdx zs (Suc i))"
  by (simp add: keptIdx_def upt_conv_Cons)

lemma keptIdx_done: "\<not> i < length zs \<Longrightarrow> keptIdx zs i = []"
  by (simp add: keptIdx_def)

lemma filterLoop_eq:
  "filterLoop i c (zs, qcs, fss, frs, u2s) =
     (zs @ map (arr_get (cpt_z c)) (keptIdx (cpt_z c) i),
      qcs @ map (\<lambda>j. nanToZero (arr_get (cpt_qc c) j)) (keptIdx (cpt_z c) i),
      fss @ map (\<lambda>j. nanToZero (arr_get (cpt_fs c) j)) (keptIdx (cpt_z c) i),
      frs @ map (\<lambda>j. nanToZero (arr_get (cpt_fr c) j)) (keptIdx (cpt_z c) i),
      u2s @ map (\<lambda>j. nanToZero (arr_get (cpt_u c) j)) (keptIdx (cpt_z c) i))"
proof (induction "length (cpt_z c) - i" arbitrary: i zs qcs fss frs u2s)
  case 0
  then have "\<not> i < length (cpt_z c)" by simp
  then show ?case
    by (subst filterLoop.simps) (simp add: keptIdx_done)
next
  case (Suc n)
  then have lt: "i < length (cpt_z c)" and n: "n = length (cpt_z c) - Suc i"
    by simp_all
  show ?case
    using lt Suc.hyps(1) [OF n]
    by (subst filterLoop.simps) (simp add: keptIdx_step)
qed

section \<open>What a run of the parser computes\<close>

lemma pushRow_eq:
  "pushRow md (tokens md line) c =
     c\<lparr>cpt_z := cpt_z c @ [rowZ md (cpt_top c) line],
       cpt_qc := cpt_qc c @ [rowQc md line],
       cpt_fs := cpt_fs c @ [rowFs md line],
       cpt_u := cpt_u c @ [rowU md line]\<rparr>"
  by (simp add: pushRow_def rowZ_def rowQc_def rowFs_def rowU_def Let_def)

lemma parseDataLine_eq:
  "parseDataLine line md c =
     Inr (if length (trim line) = 0 \<or> voidRow md line then c
          else pushRow md (tokens md line) c)"
  by (simp add: parseDataLine_def dataBody_def voidRow_def Let_def)

lemma readLines_data:
  "readLines False lines (md, c) =
     Inr (md, c\<lparr>cpt_z := cpt_z c @ map (rowZ md (cpt_top c)) (ingested md lines),
               cpt_qc := cpt_qc c @ map (rowQc md) (ingested md lines),
               cpt_fs := cpt_fs c @ map (rowFs md) (ingested md lines),
               cpt_u := cpt_u c @ map (rowU md) (ingested md lines)\<rparr>)"
proof (induction lines arbitrary: c)
  case Nil
  show ?case by (simp add: ingested_def dataRows_def)
next
  case (Cons l ls)
  show ?case
    by (simp add: parseDataLine_eq pushRow_eq Cons.IH ingested_def dataRows_def)
qed

lemma readLines_header_split:
  "readLines True lines st =
     andThen (readLines True (headerOf lines) st) (readLines False (dataOf lines))"
proof (induction lines arbitrary: st)
  case Nil
  show ?case by (simp add: headerOf_def dataOf_def)
next
  case (Cons l ls)
  show ?case
  proof (cases "isEOH l")
    case True
    then show ?thesis by (simp add: headerOf_def dataOf_def isEOH_def)
  next
    case False
    then show ?thesis
      using Cons.IH
      by (cases "parseHeaderLine l st") (simp_all add: headerOf_def dataOf_def isEOH_def)
  qed
qed

lemma arr_get_map: "j < length L \<Longrightarrow> arr_get (map f L) j = f (L ! j)"
  by (simp add: arr_get_def nth_opt_def)

lemma arr_get_nth: "j < length xs \<Longrightarrow> arr_get xs j = xs ! j"
  by (simp add: arr_get_def nth_opt_def)

lemma nth_filter_map:
  "map (\<lambda>j. g (L ! j)) (filter (\<lambda>j. P (L ! j)) [0..<length L]) = map g (filter P L)"
proof (induction L rule: rev_induct)
  case Nil
  show ?case by simp
next
  case (snoc x xs)
  have a: "filter (\<lambda>j. P ((xs @ [x]) ! j)) [0..<length xs] = filter (\<lambda>j. P (xs ! j)) [0..<length xs]"
    by (rule filter_cong) (simp_all add: nth_append)
  have b: "map (\<lambda>j. g ((xs @ [x]) ! j)) (filter (\<lambda>j. P (xs ! j)) [0..<length xs])
           = map (\<lambda>j. g (xs ! j)) (filter (\<lambda>j. P (xs ! j)) [0..<length xs])"
    by (rule map_cong) (simp_all add: nth_append)
  show ?case
    using snoc.IH by (simp add: a b)
qed

lemma map_keptIdx:
  "map (\<lambda>j. g (arr_get (map f L) j)) (keptIdx (map h L) 0)
     = map (\<lambda>l. g (f l)) (filter (\<lambda>l. \<not> isNaN (h l)) L)"
proof -
  have k: "keptIdx (map h L) 0 = filter (\<lambda>j. \<not> isNaN (h (L ! j))) [0..<length L]"
    unfolding keptIdx_def by (rule filter_cong) (simp_all add: arr_get_map)
  have m: "map (\<lambda>j. g (arr_get (map f L) j)) (filter (\<lambda>j. \<not> isNaN (h (L ! j))) [0..<length L])
           = map (\<lambda>j. g (f (L ! j))) (filter (\<lambda>j. \<not> isNaN (h (L ! j))) [0..<length L])"
    by (rule map_cong) (simp_all add: arr_get_map)
  show ?thesis
    unfolding k m by (rule nth_filter_map [where g = "\<lambda>l. g (f l)" and P = "\<lambda>l. \<not> isNaN (h l)"])
qed

lemma frLoop_maps:
  "frLoop 0 (map fq L) (map ff L) [] = map (\<lambda>l. frictionRatio (fq l) (ff l)) L"
proof -
  have "map (\<lambda>j. frictionRatio (arr_get (map fq L) j) (arr_get (map ff L) j)) [0..<length L]
        = map (\<lambda>j. frictionRatio (fq (L ! j)) (ff (L ! j))) [0..<length L]"
    by (rule map_cong) (simp_all add: arr_get_map)
  also have "\<dots> = map (\<lambda>l. frictionRatio (fq l) (ff l)) L"
    using nth_filter_map [where P = "\<lambda>l. True" and g = "\<lambda>l. frictionRatio (fq l) (ff l)" and L = L]
    by simp
  finally show ?thesis
    by (simp add: frLoop_eq)
qed

lemma postProcess_maps:
  assumes "cpt_z c = map fz L" and "cpt_qc c = map fq L" and "cpt_fs c = map ff L"
    and "cpt_u c = map fu L"
  shows "postProcess c =
     (let K = filter (\<lambda>l. \<not> isNaN (fz l)) L
      in if K = [] then Inl TypeError
         else Inr (c\<lparr>cpt_z := map fz K,
                    cpt_qc := map (\<lambda>l. nanToZero (fq l)) K,
                    cpt_fs := map (\<lambda>l. nanToZero (ff l)) K,
                    cpt_fr := map (\<lambda>l. nanToZero (frictionRatio (fq l) (ff l))) K,
                    cpt_u := map (\<lambda>l. nanToZero (fu l)) K,
                    cpt_top := round2 (cpt_top c),
                    cpt_bottom := round2 (last (map fz K))\<rparr>))"
proof -
  have z: "map (arr_get (map fz L)) (keptIdx (map fz L) 0) = map fz (filter (\<lambda>l. \<not> isNaN (fz l)) L)"
    using map_keptIdx [where g = "\<lambda>v. v" and f = fz and h = fz and L = L] by simp
  show ?thesis
    unfolding postProcess_def Let_def
    by (simp add: filterLoop_eq assms frLoop_maps z map_keptIdx)
qed

lemma headerBody_lists:
  assumes "headerBody line (md, c) = Inr (md', c')"
  shows "cpt_z c' = cpt_z c \<and> cpt_qc c' = cpt_qc c \<and> cpt_fs c' = cpt_fs c \<and> cpt_u c' = cpt_u c"
proof -
  obtain kw ps where "headerCase kw ps (md, c) = Inr (md', c')"
    using assms
    by (cases "trimAt (split line ''='') 0"; cases "trimAt (split line ''='') 1")
       (auto simp: headerBody_def Let_def)
  then show ?thesis
    by (cases "trimAt ps 0"; cases "trimAt ps 1"; cases "trimAt ps 2"; cases "trimAt ps 3")
       (auto simp: headerCase_def Let_def split: if_splits)
qed

lemma parseHeaderLine_lists:
  assumes "parseHeaderLine line (md, c) = Inr (md', c')"
  shows "cpt_z c' = cpt_z c \<and> cpt_qc c' = cpt_qc c \<and> cpt_fs c' = cpt_fs c \<and> cpt_u c' = cpt_u c"
  using assms headerBody_lists [of line md c md' c']
  by (cases "headerBody line (md, c)") (auto simp: parseHeaderLine_def)

lemma readLines_header_lists:
  assumes "readLines True hs (md, c) = Inr (md', c')" and "\<forall>h\<in>set hs. \<not> isEOH h"
  shows "cpt_z c' = cpt_z c \<and> cpt_qc c' = cpt_qc c \<and> cpt_fs c' = cpt_fs c \<and> cpt_u c' = cpt_u c"
  using assms
proof (induction hs arbitrary: md c)
  case Nil
  then show ?case by simp
next
  case (Cons h hs)
  from Cons.prems obtain md1 c1 where
    p: "parseHeaderLine h (md, c) = Inr (md1, c1)" and r: "readLines True hs (md1, c1) = Inr (md', c')"
    by (cases "parseHeaderLine h (md, c)") (auto simp: isEOH_def)
  from Cons.IH [OF r] Cons.prems(2) parseHeaderLine_lists [OF p]
  show ?case by simp
qed

lemma headerOf_no_EOH: "\<forall>h\<in>set (headerOf lines). \<not> isEOH h"
  by (auto simp: headerOf_def dest: set_takeWhileD)

lemma readGef_char:
  assumes hdr: "readLines True (headerOf (split data [CHR 0x0A])) (newMetadata, newCpt) = Inr (md, c0)"
  shows "readGef data =
     (let K = surviving md (cpt_top c0) (dataOf (split data [CHR 0x0A]))
      in if K = [] then Inl TypeError
         else Inr (c0\<lparr>cpt_z := map (rowZ md (cpt_top c0)) K,
                    cpt_qc := map (\<lambda>l. nanToZero (rowQc md l)) K,
                    cpt_fs := map (\<lambda>l. nanToZero (rowFs md l)) K,
                    cpt_fr := map (\<lambda>l. nanToZero (frictionRatio (rowQc md l) (rowFs md l))) K,
                    cpt_u := map (\<lambda>l. nanToZero (rowU md l)) K,
                    cpt_top := round2 (cpt_top c0),
                    cpt_bottom := round2 (last (map (rowZ md (cpt_top c0)) K))\<rparr>))"
proof -
  let ?ls = "split data [CHR 0x0A]"
  let ?L = "ingested md (dataOf ?ls)"
  let ?c1 = "c0\<lparr>cpt_z := cpt_z c0 @ map (rowZ md (cpt_top c0)) ?L,
               cpt_qc := cpt_qc c0 @ map (rowQc md) ?L,
               cpt_fs := cpt_fs c0 @ map (rowFs md) ?L,
               cpt_u := cpt_u c0 @ map (rowU md) ?L\<rparr>"
  have e: "cpt_z c0 = [] \<and> cpt_qc c0 = [] \<and> cpt_fs c0 = [] \<and> cpt_u c0 = []"
    using readLines_header_lists [OF hdr headerOf_no_EOH] by (simp add: newCpt_def)
  have rl: "readLines True ?ls (newMetadata, newCpt) = Inr (md, ?c1)"
    using hdr by (subst readLines_header_split) (simp add: readLines_data)
  have pp: "postProcess ?c1 =
     (let K = filter (\<lambda>l. \<not> isNaN (rowZ md (cpt_top c0) l)) ?L
      in if K = [] then Inl TypeError
         else Inr (?c1\<lparr>cpt_z := map (rowZ md (cpt_top c0)) K,
                    cpt_qc := map (\<lambda>l. nanToZero (rowQc md l)) K,
                    cpt_fs := map (\<lambda>l. nanToZero (rowFs md l)) K,
                    cpt_fr := map (\<lambda>l. nanToZero (frictionRatio (rowQc md l) (rowFs md l))) K,
                    cpt_u := map (\<lambda>l. nanToZero (rowU md l)) K,
                    cpt_top := round2 (cpt_top ?c1),
                    cpt_bottom := round2 (last (map (rowZ md (cpt_top c0)) K))\<rparr>))"
    by (rule postProcess_maps) (simp_all add: e)
  show ?thesis
    unfolding readGef_def readGefFrom_def
    by (simp add: rl pp surviving_def Let_def)
qed

section \<open>Auxiliary facts\<close>

text \<open>\<^verbatim>\<open>split\<close> with a separator that is not empty gives at least one piece, so
  \<^verbatim>\<open>params[0]\<close> in \<^verbatim>\<open>parseHeaderLine\<close> is always a string.\<close>

lemma splitOn_not_Nil: "splitOn d ds acc s \<noteq> []"
  by (induction d ds acc s rule: splitOn.induct) auto

lemma split_not_Nil: "split s (d # ds) \<noteq> []"
  by (simp add: split.simps splitOn_not_Nil)

lemma headerBody_fields:
  "headerFields line = Some (kw, ps) \<Longrightarrow> headerBody line st = headerCase kw ps st"
  by (auto simp: headerFields_def headerBody_def trimAt_def Let_def split: option.splits)

lemma headerBody_no_fields:
  "headerFields line = None \<Longrightarrow> headerBody line st = Inl TypeError"
  by (auto simp: headerFields_def headerBody_def trimAt_def Let_def split: option.splits)

lemma readLines_header_fail:
  assumes "\<forall>h\<in>set pre. \<not> isEOH h" and "\<not> isEOH l"
    and "\<And>s. parseHeaderLine l s = Inl e0"
  shows "readLines True (pre @ l # post) st =
           (case readLines True pre st of Inl e \<Rightarrow> Inl e | Inr s \<Rightarrow> Inl e0)"
  using assms(1)
proof (induction pre arbitrary: st)
  case Nil
  show ?case using assms(2,3) by (simp add: isEOH_def)
next
  case (Cons h hs)
  then show ?case
    by (cases "parseHeaderLine h st") (simp_all add: isEOH_def)
qed

lemma readLines_header_error:
  assumes "\<forall>h\<in>set hs. \<not> isEOH h" and "readLines True hs st = Inl e"
  shows "\<exists>h\<in>set hs. \<exists>e'. e = HeaderLineError h e'"
  using assms
proof (induction hs arbitrary: st)
  case Nil
  then show ?case by simp
next
  case (Cons h hs)
  show ?case
  proof (cases "parseHeaderLine h st")
    case (Inl a)
    then have "a = e" using Cons.prems by (simp add: isEOH_def)
    moreover from Inl obtain e' where "a = HeaderLineError h e'"
      by (cases "headerBody h st") (auto simp: parseHeaderLine_def)
    ultimately show ?thesis by auto
  next
    case (Inr s)
    then have "readLines True hs s = Inl e" using Cons.prems by (simp add: isEOH_def)
    from Cons.IH [OF _ this] Cons.prems(1) show ?thesis by auto
  qed
qed

lemma readGef_header_fail:
  assumes sp: "split data [CHR 0x0A] = pre @ l # post"
    and pre: "\<forall>h\<in>set pre. \<not> isEOH h" and l: "\<not> isEOH l"
    and f: "\<And>s. parseHeaderLine l s = Inl (HeaderLineError l e0)"
  shows "(\<exists>h\<in>set (pre @ [l]). \<exists>e. readGef data = Inl (HeaderLineError h e)) \<and>
         (\<forall>s. readLines True pre (newMetadata, newCpt) = Inr s \<longrightarrow>
              readGef data = Inl (HeaderLineError l e0))"
proof -
  have r: "readLines True (pre @ l # post) (newMetadata, newCpt) =
      (case readLines True pre (newMetadata, newCpt) of
         Inl e \<Rightarrow> Inl e | Inr s \<Rightarrow> Inl (HeaderLineError l e0))"
    by (rule readLines_header_fail [OF pre l f])
  show ?thesis
  proof (cases "readLines True pre (newMetadata, newCpt)")
    case (Inl e)
    from readLines_header_error [OF pre Inl] obtain h e' where
      "h \<in> set pre" and "e = HeaderLineError h e'" by blast
    then show ?thesis
      using Inl r by (auto simp: readGef_def readGefFrom_def sp)
  next
    case (Inr s)
    then show ?thesis
      using r by (auto simp: readGef_def readGefFrom_def sp)
  qed
qed

lemma dropWhile_rev_Nil: "dropWhile P (rev xs) = [] \<Longrightarrow> \<forall>x\<in>set xs. P x"
  by (simp add: dropWhile_eq_Nil_conv)

lemma trim_Nil_white: "trim l = [] \<Longrightarrow> \<forall>c\<in>set l. isWhite c"
proof -
  assume "trim l = []"
  then have a: "\<forall>c\<in>set (dropWhile isWhite l). isWhite c"
    by (simp add: trim_def dropWhile_eq_Nil_conv)
  have "dropWhile isWhite l = []"
  proof (rule ccontr)
    assume n: "dropWhile isWhite l \<noteq> []"
    then have "\<not> isWhite (hd (dropWhile isWhite l))" by (rule hd_dropWhile)
    moreover have "hd (dropWhile isWhite l) \<in> set (dropWhile isWhite l)" using n by simp
    ultimately show False using a by blast
  qed
  then show ?thesis by (simp add: dropWhile_eq_Nil_conv)
qed

lemma splitOn_no_sep: "d \<notin> set s \<Longrightarrow> splitOn d ds acc s = [rev acc @ s]"
  by (induction s arbitrary: acc) (auto simp: starts_with_def)

lemma includes_str_hd: "includes_str s (p # ps) \<Longrightarrow> p \<in> set s"
  by (induction s) (auto simp: starts_with_def)

lemma white_not_EOH: "\<forall>c\<in>set l. isWhite c \<Longrightarrow> \<not> isEOH l"
proof
  assume w: "\<forall>c\<in>set l. isWhite c" and "isEOH l"
  then have "CHR ''#'' \<in> set l"
    using includes_str_hd [of l "CHR ''#''" "''EOH''"] by (simp add: isEOH_def)
  with w have "isWhite (CHR ''#'')" by blast
  then show False by (simp add: isWhite_def)
qed

lemma white_no_fields: "\<forall>c\<in>set l. isWhite c \<Longrightarrow> headerFields l = None"
proof -
  assume w: "\<forall>c\<in>set l. isWhite c"
  have "CHR ''='' \<notin> set l"
  proof
    assume "CHR ''='' \<in> set l"
    with w have "isWhite (CHR ''='')" by blast
    then show False by (simp add: isWhite_def)
  qed
  then have "split l ''='' = [l]"
    by (simp add: split.simps splitOn_no_sep)
  then show ?thesis
    by (simp add: headerFields_def nth_opt_def)
qed

lemma ingested_blank:
  "trim l = [] \<Longrightarrow> ingested md (xs @ l # ys) = ingested md (xs @ ys)"
  by (simp add: ingested_def dataRows_def)

lemma readGef_Inr_header:
  assumes "readGef data = Inr c"
  shows "\<exists>md c0. readLines True (headerOf (split data [CHR 0x0A])) (newMetadata, newCpt) = Inr (md, c0)"
proof (cases "readLines True (headerOf (split data [CHR 0x0A])) (newMetadata, newCpt)")
  case (Inl e)
  then have "readGef data = Inl e"
    unfolding readGef_def readGefFrom_def
    by (subst readLines_header_split) simp
  with assms show ?thesis by simp
next
  case (Inr s)
  then show ?thesis by (cases s) simp
qed

lemma rows_partition:
  "length (surviving md tp lines) + length (voidRows md lines) + length (nanRows md tp lines)
     = length (dataRows lines)"
proof -
  have a: "length (filter (voidRow md) (dataRows lines)) + length (ingested md lines)
             = length (dataRows lines)"
    unfolding ingested_def by (rule sum_length_filter_compl)
  have b: "length (nanRows md tp lines) + length (surviving md tp lines) = length (ingested md lines)"
    unfolding nanRows_def surviving_def by (rule sum_length_filter_compl)
  from a b show ?thesis by (simp add: voidRows_def)
qed

lemma nanToZero_clampQc:
  "nanToZero (clampQc v) = Fin 0 \<and> isNaN v \<or> js_gt (nanToZero (clampQc v)) (Fin 0) \<and> \<not> isNaN v"
  by (cases v) (auto simp: nanToZero_def clampQc_def js_le_def js_gt_def)

lemma nanToZero_clampFs:
  "nanToZero (clampFs v) = Fin 0 \<and> isNaN v \<or> js_gt (nanToZero (clampFs v)) (Fin 0) \<and> \<not> isNaN v"
  by (cases v) (auto simp: nanToZero_def clampFs_def js_le_def js_gt_def)

lemma isNaN_rowZ: "isNaN v \<Longrightarrow> isNaN (js_sub t (js_abs v))"
  by (cases v; cases t) simp_all

lemma isNaN_clampQc: "isNaN v \<Longrightarrow> clampQc v = v"
  by (simp add: clampQc_def js_le_def)

lemma isNaN_clampFs: "isNaN v \<Longrightarrow> clampFs v = v"
  by (simp add: clampFs_def js_le_def)

section \<open>The properties\<close>

text \<open>
  Claim C1 says that after an accepted parse every cone resistance and every sleeve
  friction is above zero. The file below is accepted, and its one row has the token
  \<^verbatim>\<open>x\<close> in the column of the cone resistance: the clamp of \<^verbatim>\<open>parseDataLine\<close> lets
  \<^verbatim>\<open>NaN\<close> through, since \<^verbatim>\<open>NaN <= 0\<close> is false, and \<^verbatim>\<open>postProcess\<close> replaces it by
  0.0. The result holds the cone resistance 0.
\<close>

theorem positive_counterexample:
  "map_sum id cpt_qc
     (readGef (''#COLUMNINFO=1,m,z,1'' @ [CHR 0x0A] @ ''#COLUMNINFO=2,a,b,2'' @ [CHR 0x0A]
        @ ''#COLUMNINFO=3,a,b,3'' @ [CHR 0x0A] @ ''#EOH='' @ [CHR 0x0A] @ ''1 x 1''))
     = Inr [Fin 0]
   \<and> \<not> js_gt (Fin 0) (Fin 0)"
  by (simp add: js_eval)

text \<open>
  Claim C1, amended. After an accepted parse, the cone resistance and the sleeve friction
  of every surviving row are above zero, except where the row has no number in that
  column (the token is missing or is not a numeral): there the value is exactly 0.0.
  \<open>K\<close> is the list of the surviving rows, in the order of the result.
\<close>
theorem positive_or_zero:
  assumes "readGef data = Inr c"
    and "readLines True (headerOf (split data [CHR 0x0A])) (newMetadata, newCpt) = Inr (md, c0)"
    and "K = surviving md (cpt_top c0) (dataOf (split data [CHR 0x0A]))"
  shows "length (cpt_qc c) = length K \<and> length (cpt_fs c) = length K \<and>
    (\<forall>i < length K.
       (if isNaN (js_index (tokens md (K ! i)) (columnInfo md GEF_COLUMN_QC))
        then cpt_qc c ! i = Fin 0 else js_gt (cpt_qc c ! i) (Fin 0)) \<and>
       (if isNaN (js_index (tokens md (K ! i)) (columnInfo md GEF_COLUMN_FS))
        then cpt_fs c ! i = Fin 0 else js_gt (cpt_fs c ! i) (Fin 0)))"
proof -
  have q: "cpt_qc c = map (\<lambda>l. nanToZero (rowQc md l)) K"
    and f: "cpt_fs c = map (\<lambda>l. nanToZero (rowFs md l)) K"
    using assms(1) unfolding readGef_char [OF assms(2)] Let_def assms(3)
    by (auto split: if_splits)
  have len: "length (cpt_qc c) = length K \<and> length (cpt_fs c) = length K"
    by (simp add: q f)
  have a: "(if isNaN (js_index (tokens md (K ! i)) (columnInfo md GEF_COLUMN_QC))
         then cpt_qc c ! i = Fin 0 else js_gt (cpt_qc c ! i) (Fin 0))"
    if "i < length K" for i
    using that nanToZero_clampQc [of "js_index (tokens md (K ! i)) (columnInfo md GEF_COLUMN_QC)"]
    by (auto simp: q rowQc_def)
  have b: "(if isNaN (js_index (tokens md (K ! i)) (columnInfo md GEF_COLUMN_FS))
         then cpt_fs c ! i = Fin 0 else js_gt (cpt_fs c ! i) (Fin 0))"
    if "i < length K" for i
    using that nanToZero_clampFs [of "js_index (tokens md (K ! i)) (columnInfo md GEF_COLUMN_FS)"]
    by (auto simp: f rowFs_def)
  from len a b show ?thesis
    by blast
qed

theorem positive_or_zero_witness:
  "(\<exists>c. readGef (''#COLUMNINFO=1,m,z,1'' @ [CHR 0x0A] @ ''#COLUMNINFO=2,a,b,2'' @ [CHR 0x0A]
        @ ''#COLUMNINFO=3,a,b,3'' @ [CHR 0x0A] @ ''#EOH='' @ [CHR 0x0A] @ ''1 x 1'' @ [CHR 0x0A] @ ''2 3 -4'')
       = Inr c
     \<and> cpt_qc c ! 0 = Fin 0 \<and> js_gt (cpt_qc c ! 1) (Fin 0)
     \<and> js_gt (cpt_fs c ! 0) (Fin 0) \<and> js_gt (cpt_fs c ! 1) (Fin 0))"
proof -
  let ?data = "''#COLUMNINFO=1,m,z,1'' @ [CHR 0x0A] @ ''#COLUMNINFO=2,a,b,2'' @ [CHR 0x0A]
        @ ''#COLUMNINFO=3,a,b,3'' @ [CHR 0x0A] @ ''#EOH='' @ [CHR 0x0A] @ ''1 x 1'' @ [CHR 0x0A] @ ''2 3 -4''"
  let ?md = "newMetadata\<lparr>columnInfo :=
      (columnInfo newMetadata)(Fin 1 := Fin 0, Fin 2 := Fin 1, Fin 3 := Fin 2)\<rparr>"
  let ?c = "newCpt\<lparr>cpt_z := [Fin (- 1), Fin (- 2)], cpt_qc := [Fin 0, Fin 3],
      cpt_fs := [Fin 1, Fin (1 / 1000000)], cpt_fr := [Fin 0, Fin (1 / 30000)],
      cpt_u := [Fin 0, Fin 0], cpt_top := Fin 0, cpt_bottom := Fin (- 2)\<rparr>"
  have sp: "split ?data [CHR 0x0A] =
      [''#COLUMNINFO=1,m,z,1'', ''#COLUMNINFO=2,a,b,2'', ''#COLUMNINFO=3,a,b,3'', ''#EOH='',
       ''1 x 1'', ''2 3 -4'']"
    by (simp add: split.simps starts_with_def)
  have r: "readGef ?data = Inr ?c"
    by (simp add: js_eval)
  have h: "readLines True (headerOf (split ?data [CHR 0x0A])) (newMetadata, newCpt) = Inr (?md, newCpt)"
    unfolding sp by (simp add: js_eval)
  have k: "[''1 x 1'', ''2 3 -4''] = surviving ?md (cpt_top newCpt) (dataOf (split ?data [CHR 0x0A]))"
    unfolding sp
    by (simp add: surviving_def ingested_def dataRows_def voidRow_def rowZ_def js_eval)
  have t0: "isNaN (js_index (tokens ?md ([''1 x 1'', ''2 3 -4''] ! 0)) (columnInfo ?md GEF_COLUMN_QC))"
    by (simp add: js_eval)
  have t1: "\<not> isNaN (js_index (tokens ?md ([''1 x 1'', ''2 3 -4''] ! 1)) (columnInfo ?md GEF_COLUMN_QC))"
    by (simp add: js_eval)
  have u0: "\<not> isNaN (js_index (tokens ?md ([''1 x 1'', ''2 3 -4''] ! 0)) (columnInfo ?md GEF_COLUMN_FS))"
    by (simp add: js_eval)
  have u1: "\<not> isNaN (js_index (tokens ?md ([''1 x 1'', ''2 3 -4''] ! 1)) (columnInfo ?md GEF_COLUMN_FS))"
    by (simp add: js_eval)
  note w = positive_or_zero [OF r h k]
  from w have a: "\<forall>i < length [''1 x 1'', ''2 3 -4''].
       (if isNaN (js_index (tokens ?md ([''1 x 1'', ''2 3 -4''] ! i)) (columnInfo ?md GEF_COLUMN_QC))
        then cpt_qc ?c ! i = Fin 0 else js_gt (cpt_qc ?c ! i) (Fin 0)) \<and>
       (if isNaN (js_index (tokens ?md ([''1 x 1'', ''2 3 -4''] ! i)) (columnInfo ?md GEF_COLUMN_FS))
        then cpt_fs ?c ! i = Fin 0 else js_gt (cpt_fs ?c ! i) (Fin 0))"
    by blast
  have "cpt_qc ?c ! 0 = Fin 0 \<and> js_gt (cpt_fs ?c ! 0) (Fin 0)"
    using a [rule_format, of 0] t0 u0 by (simp only: if_True if_False) simp
  moreover have "js_gt (cpt_qc ?c ! 1) (Fin 0) \<and> js_gt (cpt_fs ?c ! 1) (Fin 0)"
    using a [rule_format, of 1] t1 u1 by (simp only: if_True if_False) simp
  ultimately show ?thesis
    using r by blast
qed

text \<open>
  Claim C2 says that a row that lacks a column of the header mapping makes
  \<^verbatim>\<open>parseDataLine\<close> fail. With the depth, cone resistance and sleeve friction in the
  columns 1, 2 and 3, the row \<^verbatim>\<open>1 2\<close> has no third token: \<^verbatim>\<open>parseDataLine\<close> returns and
  has pushed \<^verbatim>\<open>undefined\<close> as the sleeve friction, and the parse of the whole file
  succeeds.
\<close>

theorem missing_column_counterexample:
  "parseDataLine ''1 2''
     (newMetadata\<lparr>columnInfo := (columnInfo newMetadata)(Fin 1 := Fin 0, Fin 2 := Fin 1, Fin 3 := Fin 2)\<rparr>)
     newCpt
   = Inr (newCpt\<lparr>cpt_z := [Fin (- 1)], cpt_qc := [Fin 2], cpt_fs := [Undefined], cpt_u := [Fin 0]\<rparr>)
   \<and> readGef (''#COLUMNINFO=1,m,z,1'' @ [CHR 0x0A] @ ''#COLUMNINFO=2,a,b,2'' @ [CHR 0x0A]
        @ ''#COLUMNINFO=3,a,b,3'' @ [CHR 0x0A] @ ''#EOH='' @ [CHR 0x0A] @ ''1 2'')
   = Inr (newCpt\<lparr>cpt_z := [Fin (- 1)], cpt_qc := [Fin 2], cpt_fs := [Fin 0], cpt_fr := [Fin 0],
           cpt_u := [Fin 0], cpt_top := Fin 0, cpt_bottom := Fin (- 1)\<rparr>)"
  by (simp add: js_eval)

text \<open>
  Claim C2, amended. \<^verbatim>\<open>parseDataLine\<close> never fails. A row that is not blank and matches
  no void sentinel is ingested also when a column of the header mapping is missing from
  it (the index is out of range, or the token is no numeral): one value is pushed to each
  sequence, and the value pushed for the missing depth, cone resistance or sleeve
  friction is not a number.
\<close>
theorem missing_column_ingested:
  "\<exists>c'. parseDataLine line md c = Inr c' \<and>
     (length (trim line) \<noteq> 0 \<and> \<not> voidRow md line \<longrightarrow>
        length (cpt_z c') = Suc (length (cpt_z c)) \<and>
        length (cpt_qc c') = Suc (length (cpt_qc c)) \<and>
        length (cpt_fs c') = Suc (length (cpt_fs c)) \<and>
        length (cpt_u c') = Suc (length (cpt_u c)) \<and>
        (isNaN (js_index (tokens md line) (columnInfo md GEF_COLUMN_Z)) \<longrightarrow> isNaN (last (cpt_z c'))) \<and>
        (isNaN (js_index (tokens md line) (columnInfo md GEF_COLUMN_QC)) \<longrightarrow> isNaN (last (cpt_qc c'))) \<and>
        (isNaN (js_index (tokens md line) (columnInfo md GEF_COLUMN_FS)) \<longrightarrow> isNaN (last (cpt_fs c'))))"
  by (simp add: parseDataLine_eq pushRow_eq rowZ_def rowQc_def rowFs_def isNaN_rowZ isNaN_clampQc
      isNaN_clampFs)

theorem missing_column_ingested_witness:
  "\<exists>c'. parseDataLine ''1 2''
     (newMetadata\<lparr>columnInfo := (columnInfo newMetadata)(Fin 1 := Fin 0, Fin 2 := Fin 1, Fin 3 := Fin 2)\<rparr>)
     newCpt = Inr c' \<and> length (cpt_fs c') = 1 \<and> isNaN (last (cpt_fs c'))"
proof -
  let ?md = "newMetadata\<lparr>columnInfo :=
      (columnInfo newMetadata)(Fin 1 := Fin 0, Fin 2 := Fin 1, Fin 3 := Fin 2)\<rparr>"
  have a: "length (trim ''1 2'') \<noteq> 0"
    by (simp add: trim_def isWhite_def)
  have b: "\<not> voidRow ?md ''1 2''"
    by (simp add: voidRow_def voidMatch_def newMetadata_def)
  have n: "isNaN (js_index (tokens ?md ''1 2'') (columnInfo ?md GEF_COLUMN_FS))"
    by (simp add: js_eval)
  have e: "length (cpt_fs newCpt) = 0"
    by (simp add: newCpt_def)
  from missing_column_ingested [of "''1 2''" ?md newCpt] a b n e show ?thesis
    by auto
qed

text \<open>
  Claim C3. When the header has been read and no data row survives (every ingested row
  has a depth that is no number, or there is none), the parse fails: the read of the last
  depth gives \<^verbatim>\<open>undefined\<close> and the call of \<^verbatim>\<open>toFixed\<close> on it throws, which is the
  error of an empty profile. A parse that returns has at least one row.
\<close>

theorem empty_profile_fails:
  "(readLines True (headerOf (split data [CHR 0x0A])) (newMetadata, newCpt) = Inr (md, c0) \<and>
    surviving md (cpt_top c0) (dataOf (split data [CHR 0x0A])) = []
      \<longrightarrow> readGef data = Inl TypeError)
   \<and> (readGef data = Inr c \<longrightarrow> cpt_z c \<noteq> [])"
proof -
  have a: "readGef data = Inl TypeError"
    if "readLines True (headerOf (split data [CHR 0x0A])) (newMetadata, newCpt) = Inr (md, c0)"
      and "surviving md (cpt_top c0) (dataOf (split data [CHR 0x0A])) = []"
    using that by (simp add: readGef_char)
  have b: "cpt_z c \<noteq> []" if r: "readGef data = Inr c"
  proof -
    from readGef_Inr_header [OF r] obtain m k where
      h: "readLines True (headerOf (split data [CHR 0x0A])) (newMetadata, newCpt) = Inr (m, k)"
      by blast
    show ?thesis
      using r unfolding readGef_char [OF h] Let_def
      by (auto split: if_splits)
  qed
  from a b show ?thesis by blast
qed

theorem empty_profile_fails_witness:
  "readGef (''#COLUMNINFO=1,m,z,1'' @ [CHR 0x0A] @ ''#EOH='' @ [CHR 0x0A] @ ''x 2 3'') = Inl TypeError
   \<and> (\<exists>c. readGef (''#COLUMNINFO=1,m,z,1'' @ [CHR 0x0A] @ ''#EOH='' @ [CHR 0x0A] @ ''1 2 3'') = Inr c
          \<and> cpt_z c \<noteq> [])"
proof -
  let ?data = "''#COLUMNINFO=1,m,z,1'' @ [CHR 0x0A] @ ''#EOH='' @ [CHR 0x0A] @ ''x 2 3''"
  let ?good = "''#COLUMNINFO=1,m,z,1'' @ [CHR 0x0A] @ ''#EOH='' @ [CHR 0x0A] @ ''1 2 3''"
  let ?c = "newCpt\<lparr>cpt_z := [Fin (- 1)], cpt_qc := [Fin 0], cpt_fs := [Fin 0], cpt_fr := [Fin 0],
      cpt_u := [Fin 0], cpt_top := Fin 0, cpt_bottom := Fin (- 1)\<rparr>"
  have sp: "split ?data [CHR 0x0A] = [''#COLUMNINFO=1,m,z,1'', ''#EOH='', ''x 2 3'']"
    by (simp add: split.simps starts_with_def)
  have h: "readLines True (headerOf (split ?data [CHR 0x0A])) (newMetadata, newCpt)
             = Inr (newMetadata\<lparr>columnInfo := (columnInfo newMetadata)(Fin 1 := Fin 0)\<rparr>, newCpt)"
    unfolding sp by (simp add: js_eval)
  have s: "surviving (newMetadata\<lparr>columnInfo := (columnInfo newMetadata)(Fin 1 := Fin 0)\<rparr>)
             (cpt_top newCpt) (dataOf (split ?data [CHR 0x0A])) = []"
    unfolding sp
    by (simp add: surviving_def ingested_def dataRows_def voidRow_def rowZ_def js_eval)
  have g: "readGef ?good = Inr ?c"
    by (simp add: js_eval)
  from empty_profile_fails [of ?data _ newCpt] h s
  have a: "readGef ?data = Inl TypeError"
    by blast
  from empty_profile_fails [of ?good _ _ ?c] g
  have b: "cpt_z ?c \<noteq> []"
    by blast
  from a b g show ?thesis
    by blast
qed

text \<open>
  Claim C4 at a pore-pressure column declared as the first column (index 0): the
  expression \<^verbatim>\<open>metadata.columnInfo[GEF_COLUMN_U] || -1\<close> takes the index 0 for a missing
  one, and 0.0 is pushed instead of the value 5 of the row. Declared as the fourth
  column (index 3), the value 5 of the row is pushed.
\<close>

theorem pore_pressure_first_column:
  "map_sum id cpt_u
     (readGef (''#COLUMNINFO=1,kPa,u,6'' @ [CHR 0x0A] @ ''#COLUMNINFO=2,m,z,1'' @ [CHR 0x0A]
        @ ''#COLUMNINFO=3,MPa,qc,2'' @ [CHR 0x0A] @ ''#COLUMNINFO=4,MPa,fs,3'' @ [CHR 0x0A]
        @ ''#EOH='' @ [CHR 0x0A] @ ''5 1 2 3''))
     = Inr [Fin 0]
   \<and> map_sum id cpt_u
     (readGef (''#COLUMNINFO=4,kPa,u,6'' @ [CHR 0x0A] @ ''#COLUMNINFO=1,m,z,1'' @ [CHR 0x0A]
        @ ''#COLUMNINFO=2,MPa,qc,2'' @ [CHR 0x0A] @ ''#COLUMNINFO=3,MPa,fs,3'' @ [CHR 0x0A]
        @ ''#EOH='' @ [CHR 0x0A] @ ''1 2 3 5''))
     = Inr [Fin 5]"
  by (simp add: js_eval)

text \<open>
  Claim C5. After a successful parse the five sequences have the same length, and this
  length is the number of data rows (the lines of the data section that are not blank)
  less the rows that a void sentinel drops, less the rows dropped for a depth that is no
  number. \<open>md\<close> and \<open>c0\<close> are the metadata and the object at the end of the header.
\<close>

theorem sequence_lengths:
  assumes "readGef data = Inr c"
    and "readLines True (headerOf (split data [CHR 0x0A])) (newMetadata, newCpt) = Inr (md, c0)"
  shows "length (cpt_qc c) = length (cpt_z c) \<and> length (cpt_fs c) = length (cpt_z c)
       \<and> length (cpt_fr c) = length (cpt_z c) \<and> length (cpt_u c) = length (cpt_z c)
       \<and> length (cpt_z c) =
           length (dataRows (dataOf (split data [CHR 0x0A])))
             - length (voidRows md (dataOf (split data [CHR 0x0A])))
             - length (nanRows md (cpt_top c0) (dataOf (split data [CHR 0x0A])))
       \<and> length (voidRows md (dataOf (split data [CHR 0x0A])))
             + length (nanRows md (cpt_top c0) (dataOf (split data [CHR 0x0A])))
           \<le> length (dataRows (dataOf (split data [CHR 0x0A])))"
proof -
  let ?D = "dataOf (split data [CHR 0x0A])"
  let ?K = "surviving md (cpt_top c0) ?D"
  have l: "length (cpt_z c) = length ?K \<and> length (cpt_qc c) = length ?K
         \<and> length (cpt_fs c) = length ?K \<and> length (cpt_fr c) = length ?K
         \<and> length (cpt_u c) = length ?K"
    using assms(1) unfolding readGef_char [OF assms(2)] Let_def
    by (auto split: if_splits)
  from l rows_partition [of md "cpt_top c0" ?D] show ?thesis
    by simp
qed

theorem sequence_lengths_witness:
  "\<exists>c. readGef (''#COLUMNINFO=1,m,z,1'' @ [CHR 0x0A] @ ''#COLUMNINFO=2,a,b,2'' @ [CHR 0x0A]
          @ ''#COLUMNINFO=3,a,b,3'' @ [CHR 0x0A] @ ''#COLUMNVOID=2,-9999'' @ [CHR 0x0A]
          @ ''#EOH='' @ [CHR 0x0A] @ ''1 2 3'' @ [CHR 0x0A] @ '''' @ [CHR 0x0A]
          @ ''2 -9999 1'' @ [CHR 0x0A] @ ''x 1 1'' @ [CHR 0x0A] @ ''3 4 5'') = Inr c
     \<and> length (cpt_z c) = 4 - 1 - 1 \<and> length (cpt_qc c) = length (cpt_z c)
     \<and> length (cpt_fs c) = length (cpt_z c) \<and> length (cpt_fr c) = length (cpt_z c)
     \<and> length (cpt_u c) = length (cpt_z c)"
proof -
  let ?data = "''#COLUMNINFO=1,m,z,1'' @ [CHR 0x0A] @ ''#COLUMNINFO=2,a,b,2'' @ [CHR 0x0A]
          @ ''#COLUMNINFO=3,a,b,3'' @ [CHR 0x0A] @ ''#COLUMNVOID=2,-9999'' @ [CHR 0x0A]
          @ ''#EOH='' @ [CHR 0x0A] @ ''1 2 3'' @ [CHR 0x0A] @ '''' @ [CHR 0x0A]
          @ ''2 -9999 1'' @ [CHR 0x0A] @ ''x 1 1'' @ [CHR 0x0A] @ ''3 4 5''"
  let ?md = "newMetadata\<lparr>columnVoids := [(Fin 1, Fin (- 9999))], columnInfo :=
      (columnInfo newMetadata)(Fin 1 := Fin 0, Fin 2 := Fin 1, Fin 3 := Fin 2)\<rparr>"
  let ?c = "newCpt\<lparr>cpt_z := [Fin (- 1), Fin (- 3)], cpt_qc := [Fin 2, Fin 4],
      cpt_fs := [Fin 3, Fin 5], cpt_fr := [Fin 150, Fin 125], cpt_u := [Fin 0, Fin 0],
      cpt_top := Fin 0, cpt_bottom := Fin (- 3)\<rparr>"
  have sp: "split ?data [CHR 0x0A] =
      [''#COLUMNINFO=1,m,z,1'', ''#COLUMNINFO=2,a,b,2'', ''#COLUMNINFO=3,a,b,3'',
       ''#COLUMNVOID=2,-9999'', ''#EOH='', ''1 2 3'', '''', ''2 -9999 1'', ''x 1 1'', ''3 4 5'']"
    by (simp add: split.simps starts_with_def)
  have r: "readGef ?data = Inr ?c"
    by (simp add: js_eval)
  have h: "readLines True (headerOf (split ?data [CHR 0x0A])) (newMetadata, newCpt) = Inr (?md, newCpt)"
    unfolding sp by (simp add: js_eval)
  have d: "dataOf (split ?data [CHR 0x0A]) = [''1 2 3'', '''', ''2 -9999 1'', ''x 1 1'', ''3 4 5'']"
    unfolding sp by (simp add: dataOf_def isEOH_def starts_with_def)
  have n1: "length (dataRows [''1 2 3'', '''', ''2 -9999 1'', ''x 1 1'', ''3 4 5'']) = 4"
    by (simp add: dataRows_def trim_def isWhite_def)
  have n2: "length (voidRows ?md [''1 2 3'', '''', ''2 -9999 1'', ''x 1 1'', ''3 4 5'']) = 1"
    by (simp add: voidRows_def dataRows_def voidRow_def js_eval)
  have n3: "length (nanRows ?md (cpt_top newCpt) [''1 2 3'', '''', ''2 -9999 1'', ''x 1 1'', ''3 4 5'']) = 1"
    by (simp add: nanRows_def ingested_def dataRows_def voidRow_def rowZ_def js_eval)
  note w = sequence_lengths [OF r h, unfolded d n1 n2 n3]
  from w r show ?thesis
    by blast
qed

text \<open>
  Claim C6. The friction-ratio pass, the first loop of \<^verbatim>\<open>postProcess\<close>, runs over
  \<^verbatim>\<open>this.qc\<close> and \<^verbatim>\<open>this.fs\<close> and produces one value for each index \<open>i\<close> of the cone
  resistances: \<^verbatim>\<open>CPT_FR_MAX\<close>, that is 10.0, when \<^verbatim>\<open>qc[i] === 0.0\<close>, and
  \<^verbatim>\<open>(fs[i] / qc[i]) * 100.0\<close> otherwise. These are the values that \<^verbatim>\<open>postProcess\<close>
  stores in \<^verbatim>\<open>fr\<close>: the friction ratios of the object it returns are the values of the
  pass at the indices whose depth is a number, in order, with a ratio that is no number
  replaced by zero.
\<close>

theorem frictionRatio_pass:
  "length (frLoop 0 (cpt_qc c) (cpt_fs c) []) = length (cpt_qc c) \<and>
   (\<forall>i < length (cpt_qc c).
      frLoop 0 (cpt_qc c) (cpt_fs c) [] ! i =
        (if js_seq (cpt_qc c ! i) (Fin 0) then Fin 10
         else js_mul (js_div (arr_get (cpt_fs c) i) (cpt_qc c ! i)) (Fin 100))) \<and>
   (postProcess c = Inr c' \<longrightarrow>
      cpt_fr c' =
        map (\<lambda>j. nanToZero (arr_get (frLoop 0 (cpt_qc c) (cpt_fs c) []) j))
          (keptIdx (cpt_z c) 0))"
proof -
  have a: "length (frLoop 0 (cpt_qc c) (cpt_fs c) []) = length (cpt_qc c)"
    by (simp add: frLoop_eq)
  have b: "\<forall>i < length (cpt_qc c).
      frLoop 0 (cpt_qc c) (cpt_fs c) [] ! i =
        (if js_seq (cpt_qc c ! i) (Fin 0) then Fin 10
         else js_mul (js_div (arr_get (cpt_fs c) i) (cpt_qc c ! i)) (Fin 100))"
    by (simp add: frLoop_eq frictionRatio_def CPT_FR_MAX_def arr_get_nth)
  have l: "cpt_fr c' =
        map (\<lambda>j. nanToZero (arr_get (frLoop 0 (cpt_qc c) (cpt_fs c) []) j))
          (keptIdx (cpt_z c) 0)"
    if "postProcess c = Inr c'"
    using that unfolding postProcess_def Let_def
    by (auto simp: filterLoop_eq split: if_splits)
  from a b l show ?thesis by blast
qed

theorem frictionRatio_pass_witness:
  "\<exists>c'. postProcess (newCpt\<lparr>cpt_z := [Fin 1, NaN, Fin 3], cpt_qc := [Fin 0, Fin 2, Fin 4],
            cpt_fs := [Fin 1, Fin 1, Fin 1], cpt_u := [Fin 0, Fin 0, Fin 0]\<rparr>) = Inr c'
        \<and> cpt_fr c' = [Fin 10, Fin 25]"
proof -
  let ?c = "newCpt\<lparr>cpt_z := [Fin 1, NaN, Fin 3], cpt_qc := [Fin 0, Fin 2, Fin 4],
            cpt_fs := [Fin 1, Fin 1, Fin 1], cpt_u := [Fin 0, Fin 0, Fin 0]\<rparr>"
  let ?c' = "newCpt\<lparr>cpt_z := [Fin 1, Fin 3], cpt_qc := [Fin 0, Fin 4],
            cpt_fs := [Fin 1, Fin 1], cpt_fr := [Fin 10, Fin 25], cpt_u := [Fin 0, Fin 0],
            cpt_top := Fin 0, cpt_bottom := Fin 3\<rparr>"
  let ?fr = "frLoop 0 (cpt_qc ?c) (cpt_fs ?c) []"
  have p: "postProcess ?c = Inr ?c'"
    by (simp add: js_eval)
  have k: "keptIdx (cpt_z ?c) 0 = [0, 2]"
    by (simp add: keptIdx_def upt_rec arr_get_def nth_opt_def)
  note w = frictionRatio_pass [of ?c ?c']
  from w have len: "length ?fr = length (cpt_qc ?c)"
    by blast
  from w have all: "\<forall>i < length (cpt_qc ?c). ?fr ! i =
        (if js_seq (cpt_qc ?c ! i) (Fin 0) then Fin 10
         else js_mul (js_div (arr_get (cpt_fs ?c) i) (cpt_qc ?c ! i)) (Fin 100))"
    by blast
  from w p have fr: "cpt_fr ?c' = map (\<lambda>j. nanToZero (arr_get ?fr j)) (keptIdx (cpt_z ?c) 0)"
    by blast
  have f0: "?fr ! 0 = Fin 10"
    using all [rule_format, of 0] by (simp add: js_seq_def)
  have f2: "?fr ! 2 = Fin 25"
    using all [rule_format, of 2] by (simp add: js_seq_def arr_get_def nth_opt_def)
  have "cpt_fr ?c' = [nanToZero (?fr ! 0), nanToZero (?fr ! 2)]"
    using len unfolding fr k by (simp add: arr_get_def nth_opt_def)
  then have "cpt_fr ?c' = [Fin 10, Fin 25]"
    unfolding f0 f2 by (simp add: nanToZero_def)
  with p show ?thesis
    by blast
qed

text \<open>
  Claim C7 at a year that is no numeral: \<^verbatim>\<open>parseInt\<close> gives \<^verbatim>\<open>NaN\<close>, every comparison
  of the range check is false for it, and \<^verbatim>\<open>parseDate\<close> returns the text \<^verbatim>\<open>NaN0507\<close>
  instead of the empty string. The two dates of the specification come out as it says.
\<close>

theorem parseDate_not_a_number:
  "parseDate [''abc'', ''5'', ''7''] = ''NaN0507''
   \<and> map_sum id (cpt_startdate \<circ> snd)
        (parseHeaderLine ''#STARTDATE=abc,5,7'' (newMetadata, newCpt)) = Inr ''NaN0507''
   \<and> parseDate [''2023'', ''5'', ''7''] = ''20230507''
   \<and> parseDate [''1899'', ''5'', ''7''] = []"
  by (simp add: js_eval)

text \<open>
  Claim C8. Let a header line \<open>l\<close> (a line before the marker) have the keyword
  \<^verbatim>\<open>PROCEDURECODE\<close> or \<^verbatim>\<open>REPORTCODE\<close> and a first parameter that contains \<^verbatim>\<open>BORE\<close> in
  any case. Then the parse fails with the error of a header line up to \<open>l\<close>, whatever
  the lines after \<open>l\<close> are; and when the header lines before \<open>l\<close> are read without
  error, it fails with the borehole error of \<open>l\<close>.
\<close>

theorem borehole_rejected:
  assumes "split data [CHR 0x0A] = pre @ l # post"
    and "\<forall>h\<in>set pre. \<not> isEOH h" and "\<not> isEOH l"
    and "headerFields l = Some (kw, ps)"
    and "kw = ''PROCEDURECODE'' \<or> kw = ''REPORTCODE''"
    and "includes_str (toUpperCase (hd ps)) ''BORE''"
  shows "(\<exists>h\<in>set (pre @ [l]). \<exists>e. readGef data = Inl (HeaderLineError h e)) \<and>
         (\<forall>s. readLines True pre (newMetadata, newCpt) = Inr s \<longrightarrow>
              readGef data = Inl (HeaderLineError l BoreholeFile))"
proof -
  have "parseHeaderLine l s = Inl (HeaderLineError l BoreholeFile)" for s
    using assms(5,6)
    by (auto simp: parseHeaderLine_def headerBody_fields [OF assms(4)] headerCase_def Let_def)
  from readGef_header_fail [OF assms(1,2,3) this] show ?thesis .
qed

theorem borehole_rejected_witness:
  "readGef (''#PROCEDURECODE=SIKB0101_BOREHOLE'' @ [CHR 0x0A] @ ''#EOH='' @ [CHR 0x0A] @ ''1 2 3'')
     = Inl (HeaderLineError ''#PROCEDURECODE=SIKB0101_BOREHOLE'' BoreholeFile)"
proof -
  have sp: "split (''#PROCEDURECODE=SIKB0101_BOREHOLE'' @ [CHR 0x0A] @ ''#EOH='' @ [CHR 0x0A] @ ''1 2 3'')
              [CHR 0x0A]
            = [] @ ''#PROCEDURECODE=SIKB0101_BOREHOLE'' # [''#EOH='', ''1 2 3'']"
    by (simp add: split.simps starts_with_def)
  have pre: "\<forall>h\<in>set []. \<not> isEOH h"
    by simp
  have l: "\<not> isEOH ''#PROCEDURECODE=SIKB0101_BOREHOLE''"
    by (simp add: isEOH_def starts_with_def)
  have f: "headerFields ''#PROCEDURECODE=SIKB0101_BOREHOLE''
             = Some (''PROCEDURECODE'', [''SIKB0101_BOREHOLE''])"
    by (simp add: headerFields_def split.simps starts_with_def trim_def isWhite_def nth_opt_def)
  have k: "''PROCEDURECODE'' = ''PROCEDURECODE'' \<or> ''PROCEDURECODE'' = ''REPORTCODE''"
    by simp
  have b: "includes_str (toUpperCase (hd [''SIKB0101_BOREHOLE''])) ''BORE''"
    by (simp add: toUpperCase_def upperTable_def starts_with_def)
  have s: "readLines True [] (newMetadata, newCpt) = Inr (newMetadata, newCpt)"
    by simp
  from borehole_rejected [OF sp pre l f k b] s show ?thesis
    by blast
qed

text \<open>
  Claim C9. A \<^verbatim>\<open>COLUMNINFO\<close> line with code 11 (corrected depth) sets the slot of the depth
  column, the one that a line with code 1 sets; when a header has both, in either order,
  the slot holds the column of the later line.
\<close>

theorem corrected_depth_same_slot:
  assumes "headerFields l1 = Some (''COLUMNINFO'', ps1)" and "nth_opt ps1 3 = Some t1"
    and "parseInt (trim t1) = Fin 11"
    and "headerFields l2 = Some (''COLUMNINFO'', ps2)" and "nth_opt ps2 3 = Some t2"
    and "parseInt (trim t2) = Fin 1"
  shows "parseHeaderLine l1 (md, c) =
           Inr (md\<lparr>columnInfo := (columnInfo md)(GEF_COLUMN_Z := js_sub (parseInt (hd ps1)) (Fin 1))\<rparr>, c)
       \<and> parseHeaderLine l2 (md, c) =
           Inr (md\<lparr>columnInfo := (columnInfo md)(GEF_COLUMN_Z := js_sub (parseInt (hd ps2)) (Fin 1))\<rparr>, c)
       \<and> andThen (parseHeaderLine l1 (md, c)) (parseHeaderLine l2) =
           Inr (md\<lparr>columnInfo := (columnInfo md)(GEF_COLUMN_Z := js_sub (parseInt (hd ps2)) (Fin 1))\<rparr>, c)
       \<and> andThen (parseHeaderLine l2 (md, c)) (parseHeaderLine l1) =
           Inr (md\<lparr>columnInfo := (columnInfo md)(GEF_COLUMN_Z := js_sub (parseInt (hd ps1)) (Fin 1))\<rparr>, c)"
proof -
  have a: "parseHeaderLine l1 (m, k) =
      Inr (m\<lparr>columnInfo := (columnInfo m)(GEF_COLUMN_Z := js_sub (parseInt (hd ps1)) (Fin 1))\<rparr>, k)"
    for m k
    using assms(2,3)
    by (simp add: parseHeaderLine_def headerBody_fields [OF assms(1)] headerCase_def trimAt_def
        Let_def js_seq_def GEF_COLUMN_Z_CORRECTED_def)
  have b: "parseHeaderLine l2 (m, k) =
      Inr (m\<lparr>columnInfo := (columnInfo m)(GEF_COLUMN_Z := js_sub (parseInt (hd ps2)) (Fin 1))\<rparr>, k)"
    for m k
    using assms(5,6)
    by (simp add: parseHeaderLine_def headerBody_fields [OF assms(4)] headerCase_def trimAt_def
        Let_def js_seq_def GEF_COLUMN_Z_CORRECTED_def GEF_COLUMN_Z_def)
  show ?thesis
    by (simp add: a b)
qed

theorem corrected_depth_same_slot_witness:
  "parseHeaderLine ''#COLUMNINFO=4,m,corrected,11'' (newMetadata, newCpt) =
     Inr (newMetadata\<lparr>columnInfo := (columnInfo newMetadata)(Fin 1 := Fin 3)\<rparr>, newCpt)
   \<and> andThen (parseHeaderLine ''#COLUMNINFO=4,m,corrected,11'' (newMetadata, newCpt))
        (parseHeaderLine ''#COLUMNINFO=1,m,depth,1'') =
     Inr (newMetadata\<lparr>columnInfo := (columnInfo newMetadata)(Fin 1 := Fin 0)\<rparr>, newCpt)
   \<and> andThen (parseHeaderLine ''#COLUMNINFO=1,m,depth,1'' (newMetadata, newCpt))
        (parseHeaderLine ''#COLUMNINFO=4,m,corrected,11'') =
     Inr (newMetadata\<lparr>columnInfo := (columnInfo newMetadata)(Fin 1 := Fin 3)\<rparr>, newCpt)"
proof -
  have f1: "headerFields ''#COLUMNINFO=4,m,corrected,11''
              = Some (''COLUMNINFO'', [''4'', ''m'', ''corrected'', ''11''])"
    by (simp add: headerFields_def split.simps starts_with_def trim_def isWhite_def nth_opt_def)
  have f2: "headerFields ''#COLUMNINFO=1,m,depth,1''
              = Some (''COLUMNINFO'', [''1'', ''m'', ''depth'', ''1''])"
    by (simp add: headerFields_def split.simps starts_with_def trim_def isWhite_def nth_opt_def)
  have n1: "nth_opt [''4'', ''m'', ''corrected'', ''11''] 3 = Some ''11''"
    by (simp add: nth_opt_def)
  have n2: "nth_opt [''1'', ''m'', ''depth'', ''1''] 3 = Some ''1''"
    by (simp add: nth_opt_def)
  have p1: "parseInt (trim ''11'') = Fin 11"
    by (simp add: js_eval)
  have p2: "parseInt (trim ''1'') = Fin 1"
    by (simp add: js_eval)
  have v1: "js_sub (parseInt (hd [''4'', ''m'', ''corrected'', ''11''])) (Fin 1) = Fin 3"
    by (simp add: js_eval)
  have v2: "js_sub (parseInt (hd [''1'', ''m'', ''depth'', ''1''])) (Fin 1) = Fin 0"
    by (simp add: js_eval)
  note w = corrected_depth_same_slot [OF f1 n1 p1 f2 n2 p2, of newMetadata newCpt,
      unfolded v1 v2 GEF_COLUMN_Z_def]
  show ?thesis
    using w by blast
qed

text \<open>
  Claim C10. A blank line \<open>l\<close> (empty or white space only) among the header lines makes
  the parse fail with the error of a header line, the \<^verbatim>\<open>TypeError\<close> of \<open>l\<close> itself
  when the lines before it are read without error. In the data section
  \<^verbatim>\<open>parseDataLine\<close> returns at once on \<open>l\<close> and leaves the object as it is, so the lines
  are read as if \<open>l\<close> were not there.
\<close>

theorem blank_line:
  assumes "trim l = []"
  shows "(split data [CHR 0x0A] = pre @ l # post \<and> (\<forall>h\<in>set pre. \<not> isEOH h) \<longrightarrow>
            (\<exists>h\<in>set (pre @ [l]). \<exists>e. readGef data = Inl (HeaderLineError h e)) \<and>
            (\<forall>s. readLines True pre (newMetadata, newCpt) = Inr s \<longrightarrow>
                 readGef data = Inl (HeaderLineError l TypeError)))
       \<and> parseDataLine l md c = Inr c
       \<and> readLines False (xs @ l # ys) (md, c) = readLines False (xs @ ys) (md, c)"
proof -
  have w: "\<forall>c\<in>set l. isWhite c"
    using assms by (rule trim_Nil_white)
  have f: "parseHeaderLine l s = Inl (HeaderLineError l TypeError)" for s
    by (simp add: parseHeaderLine_def headerBody_no_fields [OF white_no_fields [OF w]])
  have h: "split data [CHR 0x0A] = pre @ l # post \<and> (\<forall>h\<in>set pre. \<not> isEOH h) \<longrightarrow>
            (\<exists>h\<in>set (pre @ [l]). \<exists>e. readGef data = Inl (HeaderLineError h e)) \<and>
            (\<forall>s. readLines True pre (newMetadata, newCpt) = Inr s \<longrightarrow>
                 readGef data = Inl (HeaderLineError l TypeError))"
    using readGef_header_fail [of data pre l post TypeError, OF _ _ white_not_EOH [OF w] f]
    by blast
  have d: "parseDataLine l md c = Inr c"
    using assms by (simp add: parseDataLine_eq)
  have r: "readLines False (xs @ l # ys) (md, c) = readLines False (xs @ ys) (md, c)"
    by (simp only: readLines_data ingested_blank [OF assms])
  from h d r show ?thesis by blast
qed

theorem blank_line_witness:
  "readGef (''#TESTID=a'' @ [CHR 0x0A] @ '' '' @ [CHR 0x0A] @ ''#EOH='' @ [CHR 0x0A] @ ''1 2 3'')
     = Inl (HeaderLineError '' '' TypeError)
   \<and> parseDataLine '' '' newMetadata newCpt = Inr newCpt"
proof -
  have t: "trim '' '' = []"
    by (simp add: trim_def isWhite_def)
  have sp: "split (''#TESTID=a'' @ [CHR 0x0A] @ '' '' @ [CHR 0x0A] @ ''#EOH='' @ [CHR 0x0A] @ ''1 2 3'')
              [CHR 0x0A]
            = [''#TESTID=a''] @ '' '' # [''#EOH='', ''1 2 3'']"
    by (simp add: split.simps starts_with_def)
  have pre: "\<forall>h\<in>set [''#TESTID=a'']. \<not> isEOH h"
    by (simp add: isEOH_def starts_with_def)
  have s: "readLines True [''#TESTID=a''] (newMetadata, newCpt)
             = Inr (newMetadata, newCpt\<lparr>cpt_name := ''a''\<rparr>)"
    by (simp add: js_eval)
  from blank_line [OF t, of _ "[''#TESTID=a'']" "[''#EOH='', ''1 2 3'']" newMetadata newCpt] sp pre s
  show ?thesis
    by blast
qed

end
